theory Spec2Isabelle
  imports Main
begin

section \<open>Python strings\<close>

text \<open>
  A Python \<open>str\<close> is modelled as a \<open>string\<close> whose characters are the code points
  below 256. The helpers below follow the standard library on that range.
\<close>

definition code :: "char \<Rightarrow> nat" where
  "code c = of_char c"

text \<open>\<open>str.isspace\<close> on one character: TAB..CR, FS..US, space, NEL, NBSP.\<close>

definition isspace :: "char \<Rightarrow> bool" where
  "isspace c = (let n = code c in
     (9 \<le> n \<and> n \<le> 13) \<or> (28 \<le> n \<and> n \<le> 32) \<or> n = 133 \<or> n = 160)"

text \<open>\<open>str.strip()\<close>: removes the leading and the trailing whitespace.\<close>

definition strip :: "string \<Rightarrow> string" where
  "strip s = rev (dropWhile isspace (rev (dropWhile isspace s)))"

text \<open>\<open>str.startswith(p)\<close>.\<close>

definition startswith :: "string \<Rightarrow> string \<Rightarrow> bool" where
  "startswith s p = (take (length p) s = p)"

text \<open>\<open>str.lower()\<close>: A..Z and the Latin-1 capitals move up by 32.\<close>

definition lower_char :: "char \<Rightarrow> char" where
  "lower_char c = (let n = code c in
     if (65 \<le> n \<and> n \<le> 90) \<or> (192 \<le> n \<and> n \<le> 222 \<and> n \<noteq> 215)
     then char_of (n + 32) else c)"

definition lower :: "string \<Rightarrow> string" where
  "lower s = map lower_char s"

text \<open>
  \<open>key, value = line.split(sep, 1)\<close> for a line that contains \<open>sep\<close>: the text before
  the first \<open>sep\<close> and the text after it.
\<close>

definition split1 :: "char \<Rightarrow> string \<Rightarrow> string \<times> string" where
  "split1 sep s = (takeWhile (\<lambda>c. c \<noteq> sep) s, drop 1 (dropWhile (\<lambda>c. c \<noteq> sep) s))"

text \<open>\<open>sub in s\<close> on two strings.\<close>

fun contains :: "string \<Rightarrow> string \<Rightarrow> bool" where
  "contains [] sub = (sub = [])"
| "contains (c # cs) sub = (startswith (c # cs) sub \<or> contains cs sub)"

text \<open>\<open>sep.join(xs)\<close>.\<close>

fun join :: "string \<Rightarrow> string list \<Rightarrow> string" where
  "join sep [] = []"
| "join sep [x] = x"
| "join sep (x # y # ys) = x @ sep @ join sep (y # ys)"

subsection \<open>\<open>int(s)\<close> on a string\<close>

text \<open>
  \<open>int(s)\<close> accepts optional whitespace, an optional sign, and decimal digits that may be
  separated by single underscores, then optional whitespace; anything else raises
  \<open>ValueError\<close>, which is \<open>None\<close> here. So does a string with more digits than the
  interpreter's default limit for the conversion allows.
\<close>

definition max_str_digits :: nat where
  "max_str_digits = 4300"

definition is_digit :: "char \<Rightarrow> bool" where
  "is_digit c = (48 \<le> code c \<and> code c \<le> 57)"

definition digit_val :: "char \<Rightarrow> int" where
  "digit_val c = int (code c) - 48"

definition int_space :: "char \<Rightarrow> bool" where
  "int_space c = (let n = code c in (9 \<le> n \<and> n \<le> 13) \<or> n = 32 \<or> n = 133 \<or> n = 160)"

fun scan_digits :: "int \<Rightarrow> bool \<Rightarrow> string \<Rightarrow> int option" where
  "scan_digits acc us [] = (if us then None else Some acc)"
| "scan_digits acc us (c # cs) =
     (if is_digit c then scan_digits (10 * acc + digit_val c) False cs
      else if c = CHR ''_'' \<and> \<not> us then scan_digits acc True cs
      else None)"

definition digits_value :: "string \<Rightarrow> int option" where
  "digits_value s = (case s of [] \<Rightarrow> None
     | c # cs \<Rightarrow>
         if is_digit c then
           (if length (filter is_digit s) > max_str_digits then None
            else scan_digits 0 False s)
         else None)"

definition py_int :: "string \<Rightarrow> int option" where
  "py_int s =
     (case rev (dropWhile int_space (rev (dropWhile int_space s))) of
        [] \<Rightarrow> None
      | c # cs \<Rightarrow>
          if c = CHR ''-'' then map_option uminus (digits_value cs)
          else if c = CHR ''+'' then digits_value cs
          else digits_value (c # cs))"

section \<open>Configuration values and the outside world\<close>

text \<open>
  What \<open>json.load\<close> returns, and what a configuration dictionary holds. A float is kept
  as its literal; an object is the list of the items of the parsed \<open>dict\<close>.
\<close>

datatype json_value =
    JNull
  | JBool bool
  | JInt int
  | JFloat string
  | JStr string
  | JArr "json_value list"
  | JObj "(string \<times> json_value) list"

type_synonym config = "string \<rightharpoonup> json_value"

text \<open>
  The exceptions the loaders can meet. \<open>IOError\<close> is \<open>OSError\<close>; \<open>ConfigParserError\<close>
  stands for \<open>configparser.Error\<close> and its subclasses. \<open>Unmodelled\<close> is not an exception:
  it marks the one place where the result is a dictionary with a key that is not a
  string, which \<open>config\<close> cannot hold.
\<close>

datatype config_error =
    OSError
  | UnicodeDecodeError
  | JSONDecodeError
  | ConfigParserError
  | TypeError
  | ValueError
  | KeyError
  | Unmodelled

text \<open>
  The outcome of opening a path and handing it to a library reader: the reader raises,
  or it delivers what it read.
\<close>

datatype 'a reading = Raises config_error | Delivers 'a

text \<open>
  One item met while iterating \<open>parser[section].items()\<close>: a key (already lower-cased by
  the parser) with its interpolated value, or the exception that interpolation raises at
  that item.
\<close>

datatype ini_item = Item string string | ItemRaises config_error

text \<open>
  The sections of a parsed INI file. \<open>parser.read\<close> skips a file it cannot open, which
  leaves a parser without sections.
\<close>

type_synonym ini_parser = "string \<rightharpoonup> ini_item list"

text \<open>
  The exceptions \<open>send_email\<close> tells apart, each with its text \<open>str(e)\<close>:
  \<open>OtherException\<close> is any exception that is neither of the first two.
\<close>

datatype exn =
    SMTPAuthenticationError string
  | SMTPServerDisconnected string
  | OtherException string

text \<open>
  The message object when it is handed to \<open>sendmail\<close>: its headers in the order they
  were set, and the parts attached to it. A text part is its subtype and payload; a file
  part is its data, its \<open>Name\<close> parameter and its \<open>Content-Disposition\<close> header.
\<close>

datatype part =
    MIMEText string string
  | MIMEApplication string string string

record message =
  headers :: "(string \<times> string) list"
  parts :: "part list"

text \<open>
  The calls made on the SMTP library: the two constructors with host and port, the
  methods of the session, and the \<open>QUIT\<close> that leaving the \<open>with\<close> block sends.
\<close>

datatype smtp_op =
    SMTP_SSL string int
  | SMTP string int
  | Ehlo
  | StartTLS
  | Login string string
  | Sendmail string "string list" message
  | Quit

text \<open>
  The world outside the program: the process environment, the file system as each
  reader sees it, and the mail server, which answers the calls made so far (the current
  one last) with the exception it raises, if any. Two library calls of \<open>send_email\<close>
  touch no server but may raise as well: \<open>ssl.create_default_context()\<close>, and
  \<open>msg.as_string()\<close>, which renders the message.
\<close>

record world =
  environ :: "string \<rightharpoonup> string"
  isfile :: "string \<Rightarrow> bool"
  json_load :: "string \<Rightarrow> json_value reading"
  ini_read :: "string \<Rightarrow> ini_parser reading"
  text_read :: "string \<Rightarrow> string reading"
  read_bytes :: "string \<Rightarrow> exn + string"
  server :: "smtp_op list \<Rightarrow> exn option"
  create_context :: "exn option"
  as_string :: "message \<Rightarrow> exn option"

section \<open>config.py\<close>

subsection \<open>\<open>load_from_env\<close>\<close>

text \<open>\<open>if x:\<close> on the result of \<open>os.environ.get\<close>: set and not empty.\<close>

definition truthy :: "string option \<Rightarrow> bool" where
  "truthy x = (case x of None \<Rightarrow> False | Some s \<Rightarrow> s \<noteq> [])"

definition load_from_env :: "world \<Rightarrow> string \<Rightarrow> config" where
  "load_from_env w prefix =
     (let config = Map.empty;
          email = environ w (prefix @ ''ADDRESS'');
          password = environ w (prefix @ ''PASSWORD'');
          config = (if truthy email then config(''email'' \<mapsto> JStr (the email)) else config);
          config = (if truthy password then config(''password'' \<mapsto> JStr (the password))
                    else config);
          smtp_server = environ w (prefix @ ''SMTP_SERVER'');
          smtp_port = environ w (prefix @ ''SMTP_PORT'');
          config = (if truthy smtp_server then config(''smtp_server'' \<mapsto> JStr (the smtp_server))
                    else config);
          config = (if truthy smtp_port then
                      (case py_int (the smtp_port) of
                         Some n \<Rightarrow> config(''smtp_port'' \<mapsto> JInt n)
                       | None \<Rightarrow> config)
                    else config)
      in config)"

subsection \<open>\<open>load_from_json\<close>\<close>

text \<open>\<open>key in v\<close> for a string \<open>key\<close> and a value read from JSON.\<close>

fun py_in :: "string \<Rightarrow> json_value \<Rightarrow> config_error + bool" where
  "py_in k (JObj kvs) = Inr (map_of kvs k \<noteq> None)"
| "py_in k (JArr xs) = Inr (JStr k \<in> set xs)"
| "py_in k (JStr s) = Inr (contains s k)"
| "py_in k _ = Inl TypeError"

text \<open>\<open>v[key]\<close> for a string \<open>key\<close>.\<close>

fun getitem :: "json_value \<Rightarrow> string \<Rightarrow> config_error + json_value" where
  "getitem (JObj kvs) k = (case map_of kvs k of None \<Rightarrow> Inl KeyError | Some x \<Rightarrow> Inr x)"
| "getitem _ k = Inl TypeError"

text \<open>\<open>d[key] = x\<close> on the items of a dict: an existing key keeps its place.\<close>

fun setitem :: "(string \<times> json_value) list \<Rightarrow> string \<Rightarrow> json_value \<Rightarrow> (string \<times> json_value) list" where
  "setitem [] k x = [(k, x)]"
| "setitem ((k', y) # kvs) k x = (if k' = k then (k, x) # kvs else (k', y) # setitem kvs k x)"

text \<open>
  The body of the \<open>try\<close> after \<open>json.load\<close>: neither \<open>TypeError\<close> nor \<open>KeyError\<close> is
  among the handled exceptions, so they leave the function.
\<close>

definition json_port :: "json_value \<Rightarrow> config_error + json_value" where
  "json_port config =
     (case py_in ''smtp_port'' config of
        Inl e \<Rightarrow> Inl e
      | Inr False \<Rightarrow> Inr config
      | Inr True \<Rightarrow>
          (case getitem config ''smtp_port'' of
             Inl e \<Rightarrow> Inl e
           | Inr (JStr s) \<Rightarrow>
               (case py_int s of
                  Some n \<Rightarrow>
                    (case config of JObj kvs \<Rightarrow> Inr (JObj (setitem kvs ''smtp_port'' (JInt n)))
                     | _ \<Rightarrow> Inl TypeError)
                | None \<Rightarrow> Inr config)
           | Inr _ \<Rightarrow> Inr config))"

definition load_from_json :: "world \<Rightarrow> string \<Rightarrow> config_error + json_value" where
  "load_from_json w file_path =
     (if \<not> isfile w file_path then Inr (JObj [])
      else case json_load w file_path of
             Raises e \<Rightarrow> if e = JSONDecodeError \<or> e = OSError then Inr (JObj []) else Inl e
           | Delivers config \<Rightarrow> json_port config)"

subsection \<open>\<open>load_from_ini\<close>\<close>

text \<open>\<open>section in parser\<close>: the default section is always there.\<close>

definition in_parser :: "ini_parser \<Rightarrow> string \<Rightarrow> bool" where
  "in_parser parser section = (section = ''DEFAULT'' \<or> parser section \<noteq> None)"

definition items :: "ini_parser \<Rightarrow> string \<Rightarrow> ini_item list" where
  "items parser section = (case parser section of None \<Rightarrow> [] | Some xs \<Rightarrow> xs)"

text \<open>
  The loop \<open>for key, value in parser[section].items(): config[key] = value\<close>, stopping
  at the first item that raises, with the dictionary filled so far.
\<close>

fun copy_items :: "ini_item list \<Rightarrow> config \<Rightarrow> config \<times> config_error option" where
  "copy_items [] config = (config, None)"
| "copy_items (Item key val # xs) config = copy_items xs (config(key \<mapsto> JStr val))"
| "copy_items (ItemRaises e # xs) config = (config, Some e)"

text \<open>
  \<open>if "smtp_port" in config: try: config["smtp_port"] = int(config["smtp_port"])
  except ValueError: pass\<close>, on a dictionary whose values are strings or integers.
\<close>

definition coerce_port :: "config \<Rightarrow> config" where
  "coerce_port config =
     (case config ''smtp_port'' of
        Some (JStr s) \<Rightarrow>
          (case py_int s of Some n \<Rightarrow> config(''smtp_port'' \<mapsto> JInt n) | None \<Rightarrow> config)
      | _ \<Rightarrow> config)"

definition load_from_ini :: "world \<Rightarrow> string \<Rightarrow> string \<Rightarrow> config_error + config" where
  "load_from_ini w file_path section =
     (if \<not> isfile w file_path then Inr Map.empty
      else case ini_read w file_path of
             Raises e \<Rightarrow> if e = ConfigParserError then Inr Map.empty else Inl e
           | Delivers parser \<Rightarrow>
               if in_parser parser section then
                 (case copy_items (items parser section) Map.empty of
                    (config, Some e) \<Rightarrow> if e = ConfigParserError then Inr config else Inl e
                  | (config, None) \<Rightarrow> Inr (coerce_port config))
               else Inr Map.empty)"

subsection \<open>\<open>load_from_dotenv\<close>\<close>

text \<open>\<open>for line in f\<close>: the text cut after each newline.\<close>

fun readlines :: "string \<Rightarrow> string \<Rightarrow> string list" where
  "readlines cur [] = (if cur = [] then [] else [rev cur])"
| "readlines cur (c # cs) =
     (if c = CHR 0x0A then rev (c # cur) # readlines [] cs else readlines (c # cur) cs)"

text \<open>The body of the loop, for one line.\<close>

definition dotenv_line :: "string \<Rightarrow> string \<Rightarrow> config \<Rightarrow> config" where
  "dotenv_line prefix raw config =
     (let line = strip raw in
      if line = [] \<or> startswith line ''#'' then config
      else if CHR ''='' \<in> set line \<or> CHR '':'' \<in> set line then
        (let (key, val) = (if CHR ''='' \<in> set line then split1 (CHR ''='') line
                           else split1 (CHR '':'') line) in
         if startswith key prefix then
           (let config_key = lower (drop (length prefix) key);
                config_key = (if config_key = ''address'' then ''email'' else config_key)
            in config(config_key \<mapsto> JStr val))
         else config)
      else config)"

definition dotenv_loop :: "string \<Rightarrow> string list \<Rightarrow> config" where
  "dotenv_loop prefix lines = foldl (\<lambda>config raw. dotenv_line prefix raw config) Map.empty lines"

definition load_from_dotenv :: "world \<Rightarrow> string \<Rightarrow> string \<Rightarrow> config_error + config" where
  "load_from_dotenv w file_path prefix =
     (if \<not> isfile w file_path then Inr Map.empty
      else case text_read w file_path of
             Raises e \<Rightarrow> if e = OSError then Inr Map.empty else Inl e
           | Delivers text \<Rightarrow> Inr (coerce_port (dotenv_loop prefix (readlines [] text))))"

subsection \<open>\<open>get_config\<close>\<close>

text \<open>
  \<open>config.update(other)\<close>. A mapping is copied item by item. Anything else is read as a
  sequence of pairs: each element must itself have exactly two elements, the first of
  them hashable.
\<close>

fun pair_of :: "json_value \<Rightarrow> config_error + (json_value \<times> json_value)" where
  "pair_of (JArr [k, v]) = Inr (k, v)"
| "pair_of (JArr _) = Inl ValueError"
| "pair_of (JStr [a, b]) = Inr (JStr [a], JStr [b])"
| "pair_of (JStr _) = Inl ValueError"
| "pair_of (JObj [(k1, _), (k2, _)]) = Inr (JStr k1, JStr k2)"
| "pair_of (JObj _) = Inl ValueError"
| "pair_of _ = Inl TypeError"

fun update_pairs :: "config \<Rightarrow> json_value list \<Rightarrow> config_error + config" where
  "update_pairs config [] = Inr config"
| "update_pairs config (x # xs) =
     (case pair_of x of
        Inl e \<Rightarrow> Inl e
      | Inr (JStr k, v) \<Rightarrow> update_pairs (config(k \<mapsto> v)) xs
      | Inr (JArr _, v) \<Rightarrow> Inl TypeError
      | Inr (JObj _, v) \<Rightarrow> Inl TypeError
      | Inr _ \<Rightarrow> Inl Unmodelled)"

fun dict_update :: "config \<Rightarrow> json_value \<Rightarrow> config_error + config" where
  "dict_update config (JObj kvs) = Inr (foldl (\<lambda>c (k, v). c(k \<mapsto> v)) config kvs)"
| "dict_update config (JArr xs) = update_pairs config xs"
| "dict_update config (JStr s) = (if s = [] then Inr config else Inl ValueError)"
| "dict_update config _ = Inl TypeError"

text \<open>An exception raised by a step ends the function; otherwise the next step runs.\<close>

definition and_then :: "config_error + 'a \<Rightarrow> ('a \<Rightarrow> config_error + 'b) \<Rightarrow> config_error + 'b" where
  "and_then r f = (case r of Inl e \<Rightarrow> Inl e | Inr x \<Rightarrow> f x)"

text \<open>\<open>if path:\<close> on an optional path is \<open>truthy\<close>.\<close>

definition get_config ::
  "world \<Rightarrow> string \<Rightarrow> string option \<Rightarrow> string option \<Rightarrow> string option \<Rightarrow> string
     \<Rightarrow> config_error + config" where
  "get_config w env_prefix json_path ini_path dotenv_path ini_section =
     and_then
       (if truthy ini_path
        then and_then (load_from_ini w (the ini_path) ini_section) (\<lambda>f. Inr (Map.empty ++ f))
        else Inr Map.empty)
       (\<lambda>config.
     and_then
       (if truthy dotenv_path
        then and_then (load_from_dotenv w (the dotenv_path) env_prefix) (\<lambda>f. Inr (config ++ f))
        else Inr config)
       (\<lambda>config.
     and_then
       (if truthy json_path
        then and_then (load_from_json w (the json_path)) (dict_update config)
        else Inr config)
       (\<lambda>config. Inr (config ++ load_from_env w env_prefix))))"

section \<open>emailer.py\<close>

subsection \<open>Arguments and the lists they share with the caller\<close>

text \<open>
  \<open>EmailSender\<close> with the four fields its constructor stores.
\<close>

record sender =
  email :: string
  password :: string
  smtp_server :: string
  smtp_port :: int

text \<open>
  An argument of type \<open>Union[str, List[str]]\<close>: a string, or a reference to a list
  object of the caller. The store gives the content of every list object.
\<close>

datatype recipients = Str string | ListRef nat

type_synonym store = "nat \<Rightarrow> string list"

text \<open>
  The local variable \<open>to_emails\<close>: the caller's list, or the fresh one-element list
  built from a string, which nobody else can see.
\<close>

datatype list_var = Fresh "string list" | Shared nat

definition content :: "store \<Rightarrow> list_var \<Rightarrow> string list" where
  "content h l = (case l of Fresh xs \<Rightarrow> xs | Shared a \<Rightarrow> h a)"

text \<open>\<open>l.extend(ys)\<close>, where \<open>ys\<close> is read before the list grows.\<close>

definition list_extend :: "store \<Rightarrow> list_var \<Rightarrow> string list \<Rightarrow> store \<times> list_var" where
  "list_extend h l ys = (case l of Fresh xs \<Rightarrow> (h, Fresh (xs @ ys))
                             | Shared a \<Rightarrow> (h(a := h a @ ys), Shared a))"

text \<open>\<open>if cc:\<close> on an optional string or list.\<close>

definition given :: "store \<Rightarrow> recipients option \<Rightarrow> bool" where
  "given h x = (case x of None \<Rightarrow> False | Some (Str s) \<Rightarrow> s \<noteq> [] | Some (ListRef a) \<Rightarrow> h a \<noteq> [])"

text \<open>\<open>if isinstance(cc, str): cc = [cc]\<close>, then the content of \<open>cc\<close>.\<close>

definition as_list :: "store \<Rightarrow> recipients option \<Rightarrow> string list" where
  "as_list h x = (case x of None \<Rightarrow> [] | Some (Str s) \<Rightarrow> [s] | Some (ListRef a) \<Rightarrow> h a)"

subsection \<open>Attachments\<close>

text \<open>\<open>os.path.basename\<close>: what follows the last slash.\<close>

definition basename :: "string \<Rightarrow> string" where
  "basename p = rev (takeWhile (\<lambda>c. c \<noteq> CHR ''/'') (rev p))"

text \<open>
  The loop over \<open>attachments\<close>. It runs before the \<open>try\<close>, so an exception from
  \<open>open\<close> or \<open>read\<close> ends it and leaves \<open>send_email\<close>.
\<close>

fun attach_files :: "world \<Rightarrow> string list \<Rightarrow> part list \<Rightarrow> exn + part list" where
  "attach_files w [] ps = Inr ps"
| "attach_files w (file_path # rest) ps =
     (if isfile w file_path then
        (case read_bytes w file_path of
           Inl e \<Rightarrow> Inl e
         | Inr data \<Rightarrow>
             attach_files w rest
               (ps @ [MIMEApplication data (basename file_path)
                        (''attachment; filename='' @ [CHR 0x22] @ basename file_path @ [CHR 0x22])]))
      else attach_files w rest ps)"

subsection \<open>The SMTP session\<close>

text \<open>The calls of a \<open>with\<close> body, one after the other, up to the first that raises.\<close>

fun run_ops :: "(smtp_op list \<Rightarrow> exn option) \<Rightarrow> smtp_op list \<Rightarrow> smtp_op list
    \<Rightarrow> smtp_op list \<times> exn option" where
  "run_ops srv done [] = (done, None)"
| "run_ops srv done (x # xs) =
     (case srv (done @ [x]) of
        Some e \<Rightarrow> (done @ [x], Some e)
      | None \<Rightarrow> run_ops srv (done @ [x]) xs)"

text \<open>
  \<open>with smtplib.SMTP(...) as server: body\<close>, where the body is the calls up to the
  login, then the evaluation of \<open>msg.as_string()\<close>, whose outcome is \<open>render\<close>, then
  \<open>sendmail\<close>. If the constructor raises there is no session. Otherwise the body runs
  up to the first step that raises and, however it ends, the session sends \<open>QUIT\<close>: a
  disconnection at that point is swallowed, any other exception replaces the outcome of
  the body.
\<close>

definition session :: "(smtp_op list \<Rightarrow> exn option) \<Rightarrow> smtp_op \<Rightarrow> smtp_op list \<Rightarrow> exn option
    \<Rightarrow> smtp_op list \<Rightarrow> smtp_op list \<times> exn option" where
  "session srv connect before render after =
     (case srv [connect] of
        Some e \<Rightarrow> ([connect], Some e)
      | None \<Rightarrow>
          (case (case run_ops srv [connect] before of
                   (done, Some e) \<Rightarrow> (done, Some e)
                 | (done, None) \<Rightarrow>
                     (case render of
                        Some e \<Rightarrow> (done, Some e)
                      | None \<Rightarrow> run_ops srv done after)) of
             (done, r) \<Rightarrow>
               (case srv (done @ [Quit]) of
                  None \<Rightarrow> (done @ [Quit], r)
                | Some (SMTPServerDisconnected m) \<Rightarrow> (done @ [Quit], r)
                | Some e \<Rightarrow> (done @ [Quit], Some e))))"

subsection \<open>\<open>send_email\<close>\<close>

text \<open>
  What a call leaves behind: it returns a boolean or lets an exception out; the lines it
  printed; the calls it made on the SMTP library; the store of the caller's lists.
\<close>

record result =
  outcome :: "exn + bool"
  printed :: "string list"
  calls :: "smtp_op list"
  lists :: store

text \<open>The three handlers of the \<open>try\<close>.\<close>

fun handler :: "exn \<Rightarrow> string list" where
  "handler (SMTPAuthenticationError e) =
     [''Error sending email: Authentication failed. Please verify email/password or app-specific password.'',
      ''SMTPAuthenticationError: '' @ e]"
| "handler (SMTPServerDisconnected e) =
     [''Error sending email: Connection unexpectedly closed by the server. This often happens when using STARTTLS on port 465. Try port 465 with SSL or port 587 with STARTTLS.'',
      ''SMTPServerDisconnected: '' @ e]"
| "handler (OtherException e) = [''Error sending email: '' @ e]"

text \<open>
  The two branches of the \<open>try\<close> block: the constructor chosen by the port, the calls
  up to the login, and the \<open>sendmail\<close> with the recipients and the message as they are
  then. The port is an integer, as the constructor declares it, so
  \<open>int(self.smtp_port)\<close> is the port itself.
\<close>

definition transport :: "sender \<Rightarrow> string list \<Rightarrow> message
    \<Rightarrow> smtp_op \<times> smtp_op list \<times> smtp_op list" where
  "transport self to_emails msg =
     (if smtp_port self = 465 then
        (SMTP_SSL (smtp_server self) (smtp_port self),
         [Login (email self) (password self)],
         [Sendmail (email self) to_emails msg])
      else
        (SMTP (smtp_server self) (smtp_port self),
         [Ehlo, StartTLS, Ehlo, Login (email self) (password self)],
         [Sendmail (email self) to_emails msg]))"

text \<open>
  The message as built before the attachments: the headers that \<open>MIMEMultipart()\<close>
  sets, then \<open>From\<close>, \<open>To\<close>, \<open>Subject\<close> and, when \<open>cc\<close> is given, \<open>Cc\<close>; one text part.
\<close>

definition build_headers :: "sender \<Rightarrow> store \<Rightarrow> list_var \<Rightarrow> string \<Rightarrow> recipients option
    \<Rightarrow> (string \<times> string) list" where
  "build_headers self h to_emails subject cc =
     [(''Content-Type'', ''multipart/mixed''), (''MIME-Version'', ''1.0''),
      (''From'', email self),
      (''To'', join '', '' (content h to_emails)),
      (''Subject'', subject)]
     @ (if given h cc then [(''Cc'', join '', '' (as_list h cc))] else [])"

definition send_email ::
  "world \<Rightarrow> store \<Rightarrow> sender \<Rightarrow> recipients \<Rightarrow> string \<Rightarrow> string \<Rightarrow> bool \<Rightarrow> string list option
     \<Rightarrow> recipients option \<Rightarrow> recipients option \<Rightarrow> result" where
  "send_email w h self to_arg subject body html attachments cc bcc =
     (let to_emails = (case to_arg of Str s \<Rightarrow> Fresh [s] | ListRef a \<Rightarrow> Shared a);
          hdrs = build_headers self h to_emails subject cc;
          (h, to_emails) = (if given h cc then list_extend h to_emails (as_list h cc)
                            else (h, to_emails));
          (h, to_emails) = (if given h bcc then list_extend h to_emails (as_list h bcc)
                            else (h, to_emails));
          body_part = (if html then MIMEText ''html'' body else MIMEText ''plain'' body)
      in case attach_files w (case attachments of None \<Rightarrow> [] | Some fs \<Rightarrow> fs) [body_part] of
           Inl e \<Rightarrow> \<lparr>outcome = Inl e, printed = [], calls = [], lists = h\<rparr>
         | Inr ps \<Rightarrow>
             (case create_context w of
                Some e \<Rightarrow>
                  \<lparr>outcome = Inr False, printed = handler e, calls = [], lists = h\<rparr>
              | None \<Rightarrow>
                  (case transport self (content h to_emails) \<lparr>headers = hdrs, parts = ps\<rparr> of
                     (connect, before, after) \<Rightarrow>
                       (case session (server w) connect before
                               (as_string w \<lparr>headers = hdrs, parts = ps\<rparr>) after of
                          (done, None) \<Rightarrow>
                            \<lparr>outcome = Inr True, printed = [], calls = done, lists = h\<rparr>
                        | (done, Some e) \<Rightarrow>
                            \<lparr>outcome = Inr False, printed = handler e, calls = done,
                             lists = h\<rparr>))))"

subsection \<open>\<open>send_template_email\<close>\<close>

text \<open>\<open>s.replace(old, new)\<close>: the occurrences of \<open>old\<close> from the left, not overlapping.\<close>

function replace :: "string \<Rightarrow> string \<Rightarrow> string \<Rightarrow> string" where
  "replace [] old new = (if old = [] then new else [])"
| "replace (c # cs) old new =
     (if old = [] then new @ c # replace cs old new
      else if startswith (c # cs) old then new @ replace (drop (length old) (c # cs)) old new
      else c # replace cs old new)"
  by pat_completeness auto
termination
  by (relation "measure (\<lambda>(s, old, new). length s)") auto

text \<open>
  The loop over \<open>template_vars.items()\<close>, the dictionary given as its items in order.
\<close>

definition placeholder :: "string \<Rightarrow> string" where
  "placeholder var_name = ''{'' @ var_name @ ''}''"

definition substitute :: "string \<Rightarrow> (string \<times> string) list \<Rightarrow> string" where
  "substitute template template_vars =
     foldl (\<lambda>body (var_name, var_value). replace body (placeholder var_name) var_value)
       template template_vars"

definition send_template_email ::
  "world \<Rightarrow> store \<Rightarrow> sender \<Rightarrow> recipients \<Rightarrow> string \<Rightarrow> string \<Rightarrow> (string \<times> string) list \<Rightarrow> bool
     \<Rightarrow> string list option \<Rightarrow> recipients option \<Rightarrow> recipients option \<Rightarrow> result" where
  "send_template_email w h self to_arg subject template template_vars html attachments cc bcc =
     send_email w h self to_arg subject (substitute template template_vars) html attachments cc bcc"

section \<open>Reading results and example inputs\<close>

text \<open>\<open>config.get(key)\<close> on what a loader returns, if it returns.\<close>

definition get_key :: "config_error + config \<Rightarrow> string \<Rightarrow> config_error + json_value option" where
  "get_key r k = and_then r (\<lambda>config. Inr (config k))"

text \<open>The dictionary with the given items.\<close>

definition dict_of :: "(string \<times> json_value) list \<Rightarrow> config" where
  "dict_of kvs = foldl (\<lambda>c (k, v). c(k \<mapsto> v)) Map.empty kvs"

text \<open>The recipients an optional argument contributes: none when it is not given.\<close>

definition listed :: "store \<Rightarrow> recipients option \<Rightarrow> string list" where
  "listed h x = (if given h x then as_list h x else [])"

text \<open>The \<open>bcc\<close> argument is the very list object passed as \<open>to_emails\<close>.\<close>

definition same_list :: "recipients \<Rightarrow> recipients option \<Rightarrow> bool" where
  "same_list to_arg bcc =
     (case (to_arg, bcc) of (ListRef a, Some (ListRef b)) \<Rightarrow> a = b | _ \<Rightarrow> False)"

text \<open>
  Shorthand for the two values that the theorems on \<open>send_email\<close> keep naming: the list
  handed to \<open>sendmail\<close> and the headers of the message.
\<close>

abbreviation envelope :: "store \<Rightarrow> recipients \<Rightarrow> recipients option \<Rightarrow> recipients option
    \<Rightarrow> string list" where
  "envelope h to_arg cc bcc \<equiv>
     as_list h (Some to_arg) @ listed h cc
     @ (if same_list to_arg bcc then as_list h (Some to_arg) @ listed h cc else listed h bcc)"

abbreviation header_list :: "sender \<Rightarrow> store \<Rightarrow> recipients \<Rightarrow> string \<Rightarrow> recipients option
    \<Rightarrow> (string \<times> string) list" where
  "header_list self h to_arg subject cc \<equiv>
     [(''Content-Type'', ''multipart/mixed''), (''MIME-Version'', ''1.0''),
      (''From'', email self),
      (''To'', join '', '' (as_list h (Some to_arg))),
      (''Subject'', subject)]
     @ (if given h cc then [(''Cc'', join '', '' (as_list h cc))] else [])"

text \<open>The recipients and the message of the \<open>sendmail\<close> call among the calls made.\<close>

fun envelope_of :: "smtp_op list \<Rightarrow> string list option" where
  "envelope_of [] = None"
| "envelope_of (Sendmail frm tos msg # xs) = Some tos"
| "envelope_of (_ # xs) = envelope_of xs"

fun message_of :: "smtp_op list \<Rightarrow> message option" where
  "message_of [] = None"
| "message_of (Sendmail frm tos msg # xs) = Some msg"
| "message_of (_ # xs) = message_of xs"

text \<open>A name without braces, as a placeholder \<open>{name}\<close> has.\<close>

definition brace_free :: "string \<Rightarrow> bool" where
  "brace_free s = (CHR ''{'' \<notin> set s \<and> CHR ''}'' \<notin> set s)"

text \<open>
  A world with nothing in it: no environment variables, no files, a mail server that
  accepts every call, and library calls that do not raise.
\<close>

definition quiet_world :: world where
  "quiet_world =
     \<lparr>environ = Map.empty,
      isfile = (\<lambda>p. False),
      json_load = (\<lambda>p. Raises OSError),
      ini_read = (\<lambda>p. Delivers Map.empty),
      text_read = (\<lambda>p. Raises OSError),
      read_bytes = (\<lambda>p. Inl (OtherException ''[Errno 2] No such file or directory'')),
      server = (\<lambda>t. None),
      create_context = None,
      as_string = (\<lambda>m. None)\<rparr>"

text \<open>A world where each of the four sources supplies \<open>smtp_port\<close> as the string \<open>s\<close>.\<close>

definition port_world :: "string \<Rightarrow> world" where
  "port_world s =
     quiet_world
       \<lparr>environ := [''EMAIL_SMTP_PORT'' \<mapsto> s],
        isfile := (\<lambda>p. True),
        json_load := (\<lambda>p. Delivers (JObj [(''smtp_port'', JStr s)])),
        ini_read := (\<lambda>p. Delivers [''email'' \<mapsto> [Item ''smtp_port'' s]]),
        text_read := (\<lambda>p. Delivers (''EMAIL_SMTP_PORT='' @ s @ [CHR 0x0A]))\<rparr>"

text \<open>
  A world where the four sources give four different addresses; \<open>env\<close> says whether the
  environment variable is set, and a file exists when its name is in \<open>files\<close>.
\<close>

definition four_sources :: "bool \<Rightarrow> string list \<Rightarrow> world" where
  "four_sources env files =
     quiet_world
       \<lparr>environ := (if env then [''EMAIL_ADDRESS'' \<mapsto> ''env@example.com''] else Map.empty),
        isfile := (\<lambda>p. p \<in> set files),
        json_load := (\<lambda>p. Delivers (JObj [(''email'', JStr ''json@example.com'')])),
        ini_read := (\<lambda>p. Delivers [''email'' \<mapsto> [Item ''email'' ''ini@example.com'']]),
        text_read := (\<lambda>p. Delivers (''EMAIL_ADDRESS=dotenv@example.com'' @ [CHR 0x0A]))\<rparr>"

text \<open>A world whose files exist but hold bytes that are not text in the encoding used.\<close>

definition undecodable_world :: world where
  "undecodable_world =
     quiet_world
       \<lparr>isfile := (\<lambda>p. True),
        json_load := (\<lambda>p. Raises UnicodeDecodeError),
        ini_read := (\<lambda>p. Raises UnicodeDecodeError),
        text_read := (\<lambda>p. Raises UnicodeDecodeError)\<rparr>"

text \<open>A world whose JSON file holds the document \<open>5\<close>.\<close>

definition scalar_json_world :: world where
  "scalar_json_world =
     quiet_world \<lparr>isfile := (\<lambda>p. True), json_load := (\<lambda>p. Delivers (JInt 5))\<rparr>"

text \<open>A dotenv file with a comment, a blank line, two prefixed keys and a foreign key.\<close>

definition dotenv_text :: string where
  "dotenv_text =
     ''# mail settings'' @ [CHR 0x0A] @ [CHR 0x0A]
     @ ''EMAIL_ADDRESS=x@y.com'' @ [CHR 0x0A]
     @ ''FOO=bar'' @ [CHR 0x0A]
     @ ''EMAIL_SMTP_SERVER:smtp.y.com'' @ [CHR 0x0A]"

definition dotenv_world :: world where
  "dotenv_world = quiet_world \<lparr>isfile := (\<lambda>p. True), text_read := (\<lambda>p. Delivers dotenv_text)\<rparr>"

text \<open>
  A world where \<open>report.pdf\<close> exists and can be read, \<open>secret.bin\<close> exists but cannot be
  opened, and nothing else exists.
\<close>

definition files_world :: world where
  "files_world =
     quiet_world
       \<lparr>isfile := (\<lambda>p. p = ''docs/report.pdf'' \<or> p = ''secret.bin''),
        read_bytes := (\<lambda>p. if p = ''docs/report.pdf'' then Inr ''%PDF''
                            else Inl (OtherException ''[Errno 13] Permission denied''))\<rparr>"




text \<open>
  INI files whose section \<open>email\<close> has an item that cannot be interpolated, after the
  port in \<open>late_error_world\<close> and before it in \<open>early_error_world\<close>.
\<close>

definition late_error_world :: world where
  "late_error_world =
     quiet_world
       \<lparr>isfile := (\<lambda>p. True),
        ini_read := (\<lambda>p. Delivers [''email'' \<mapsto>
                       [Item ''smtp_port'' ''587'', ItemRaises ConfigParserError]])\<rparr>"

definition early_error_world :: world where
  "early_error_world =
     quiet_world
       \<lparr>isfile := (\<lambda>p. True),
        ini_read := (\<lambda>p. Delivers [''email'' \<mapsto>
                       [ItemRaises ConfigParserError, Item ''smtp_port'' ''587'']])\<rparr>"

text \<open>A dotenv file whose only line has a colon before an equals sign.\<close>

definition colon_world :: world where
  "colon_world =
     quiet_world
       \<lparr>isfile := (\<lambda>p. True),
        text_read := (\<lambda>p. Delivers (''EMAIL_ADDRESS:x=y@z.com'' @ [CHR 0x0A]))\<rparr>"

definition alice :: sender where
  "alice = \<lparr>email = ''alice@example.com'', password = ''secret'',
            smtp_server = ''smtp.example.com'', smtp_port = 587\<rparr>"

text \<open>The caller's lists: list 0 holds one address, list 1 two, every other is empty.\<close>

definition lists0 :: store where
  "lists0 = (\<lambda>a. if a = 0 then [''bob@example.com'']
                  else if a = 1 then [''carol@example.com'', ''dave@example.com'']
                  else [])"

section \<open>The configuration loaders\<close>

subsection \<open>Auxiliary facts\<close>

lemma split1_at: "sep \<notin> set k \<Longrightarrow> split1 sep (k @ sep # v) = (k, v)"
  by (induction k) (auto simp: split1_def)

lemma py_int_nonempty: "py_int s = Some n \<Longrightarrow> s \<noteq> []"
  by (auto simp: py_int_def)

lemma map_of_setitem: "map_of (setitem kvs k x) k = Some x"
  by (induction kvs) auto

lemma coerce_port_at:
  "coerce_port c ''smtp_port'' =
     (case c ''smtp_port'' of
        Some (JStr s) \<Rightarrow> (case py_int s of Some n \<Rightarrow> Some (JInt n) | None \<Rightarrow> Some (JStr s))
      | x \<Rightarrow> x)"
  by (simp add: coerce_port_def split: option.splits json_value.splits)

lemma coerce_port_other: "k \<noteq> ''smtp_port'' \<Longrightarrow> coerce_port c k = c k"
  by (simp add: coerce_port_def split: option.splits json_value.splits)

lemma copy_items_strings:
  "copy_items xs c0 = (c, r) \<Longrightarrow> c0 k = None \<or> (\<exists>u. c0 k = Some (JStr u))
     \<Longrightarrow> c k = None \<or> (\<exists>u. c k = Some (JStr u))"
proof (induction xs arbitrary: c0)
  case Nil
  then show ?case by simp
next
  case (Cons x xs)
  then show ?case by (cases x) (auto split: if_splits)
qed

lemma env_port:
  "load_from_env w prefix ''smtp_port'' =
     (case environ w (prefix @ ''SMTP_PORT'') of None \<Rightarrow> None
      | Some s \<Rightarrow> map_option JInt (py_int s))"
  by (auto simp: load_from_env_def truthy_def Let_def py_int_def split: option.splits)

subsection \<open>Coercion of \<open>smtp_port\<close>\<close>

text \<open>
  Claim C2, as amended. Let \<open>s\<close> be a string that \<open>int\<close> accepts, with value \<open>n\<close>, and \<open>t\<close>
  one that it rejects. Supplied as \<open>s\<close>, \<open>smtp_port\<close> becomes the integer \<open>n\<close> in the
  fragment of \<open>load_from_env\<close>, of \<open>load_from_json\<close>, of \<open>load_from_dotenv\<close>, and of
  \<open>load_from_ini\<close> when all the items of the section are read. Supplied as \<open>t\<close>, it is
  absent from the fragment of \<open>load_from_env\<close>, and stays in the fragment as the string
  \<open>t\<close> in the other three. When an item of the INI section raises a parser error, the
  loop ends there and the coercion is not reached: the fragment holds what was read
  before, so \<open>smtp_port\<close> is the string as written, numeric or not, or is absent.
\<close>

theorem smtp_port_coercion:
  assumes "py_int s = Some n" and "py_int t = None"
  shows "(environ w (prefix @ ''SMTP_PORT'') = Some s
            \<longrightarrow> load_from_env w prefix ''smtp_port'' = Some (JInt n))
       \<and> (environ w (prefix @ ''SMTP_PORT'') = Some t
            \<longrightarrow> load_from_env w prefix ''smtp_port'' = None)
       \<and> (isfile w jp \<and> json_load w jp = Delivers (JObj kvs)
            \<and> map_of kvs ''smtp_port'' = Some (JStr s)
            \<longrightarrow> load_from_json w jp = Inr (JObj (setitem kvs ''smtp_port'' (JInt n)))
                \<and> map_of (setitem kvs ''smtp_port'' (JInt n)) ''smtp_port'' = Some (JInt n))
       \<and> (isfile w jp \<and> json_load w jp = Delivers (JObj kvs)
            \<and> map_of kvs ''smtp_port'' = Some (JStr t)
            \<longrightarrow> load_from_json w jp = Inr (JObj kvs))
       \<and> (isfile w ip \<and> ini_read w ip = Delivers parser \<and> in_parser parser section
            \<and> copy_items (items parser section) Map.empty = (c, None)
            \<longrightarrow> (c ''smtp_port'' = Some (JStr s)
                   \<longrightarrow> get_key (load_from_ini w ip section) ''smtp_port'' = Inr (Some (JInt n)))
               \<and> (c ''smtp_port'' = Some (JStr t)
                   \<longrightarrow> get_key (load_from_ini w ip section) ''smtp_port'' = Inr (Some (JStr t))))
       \<and> (isfile w ip \<and> ini_read w ip = Delivers parser \<and> in_parser parser section
            \<and> copy_items (items parser section) Map.empty = (c, Some ConfigParserError)
            \<longrightarrow> get_key (load_from_ini w ip section) ''smtp_port'' = Inr (c ''smtp_port'')
                \<and> (c ''smtp_port'' = None \<or> (\<exists>u. c ''smtp_port'' = Some (JStr u))))
       \<and> (isfile w dp \<and> text_read w dp = Delivers text
            \<longrightarrow> (dotenv_loop prefix (readlines [] text) ''smtp_port'' = Some (JStr s)
                   \<longrightarrow> get_key (load_from_dotenv w dp prefix) ''smtp_port'' = Inr (Some (JInt n)))
               \<and> (dotenv_loop prefix (readlines [] text) ''smtp_port'' = Some (JStr t)
                   \<longrightarrow> get_key (load_from_dotenv w dp prefix) ''smtp_port'' = Inr (Some (JStr t))))"
proof -
  have env: "load_from_env w prefix ''smtp_port'' =
     (case environ w (prefix @ ''SMTP_PORT'') of None \<Rightarrow> None | Some s \<Rightarrow> map_option JInt (py_int s))"
    by (rule env_port)
  have json_s: "load_from_json w jp = Inr (JObj (setitem kvs ''smtp_port'' (JInt n)))"
    if "isfile w jp" "json_load w jp = Delivers (JObj kvs)" "map_of kvs ''smtp_port'' = Some (JStr s)"
    using that assms by (simp add: load_from_json_def json_port_def)
  have json_t: "load_from_json w jp = Inr (JObj kvs)"
    if "isfile w jp" "json_load w jp = Delivers (JObj kvs)" "map_of kvs ''smtp_port'' = Some (JStr t)"
    using that assms by (simp add: load_from_json_def json_port_def)
  have ini: "get_key (load_from_ini w ip section) ''smtp_port'' = Inr (coerce_port c ''smtp_port'')"
    if "isfile w ip" "ini_read w ip = Delivers parser" "in_parser parser section"
       "copy_items (items parser section) Map.empty = (c, None)"
    using that by (simp add: load_from_ini_def get_key_def and_then_def)
  have cut: "get_key (load_from_ini w ip section) ''smtp_port'' = Inr (c ''smtp_port'')"
    if "isfile w ip" "ini_read w ip = Delivers parser" "in_parser parser section"
       "copy_items (items parser section) Map.empty = (c, Some ConfigParserError)"
    using that by (simp add: load_from_ini_def get_key_def and_then_def)
  have str: "c ''smtp_port'' = None \<or> (\<exists>u. c ''smtp_port'' = Some (JStr u))"
    if "copy_items (items parser section) Map.empty = (c, Some ConfigParserError)"
    using copy_items_strings [OF that] by simp
  have dot: "get_key (load_from_dotenv w dp prefix) ''smtp_port''
      = Inr (coerce_port (dotenv_loop prefix (readlines [] text)) ''smtp_port'')"
    if "isfile w dp" "text_read w dp = Delivers text"
    using that by (simp add: load_from_dotenv_def get_key_def and_then_def)
  show ?thesis
    using assms env json_s json_t ini cut str dot
    by (simp add: coerce_port_at map_of_setitem)
qed

text \<open>The instance with \<open>s = "587"\<close> and \<open>t = "abc"\<close>.\<close>

theorem smtp_port_coercion_witness:
  "load_from_env (port_world ''587'') ''EMAIL_'' ''smtp_port'' = Some (JInt 587)
   \<and> load_from_env (port_world ''abc'') ''EMAIL_'' ''smtp_port'' = None
   \<and> load_from_json (port_world ''587'') ''config.json'' = Inr (JObj [(''smtp_port'', JInt 587)])
   \<and> load_from_json (port_world ''abc'') ''config.json'' = Inr (JObj [(''smtp_port'', JStr ''abc'')])
   \<and> get_key (load_from_ini (port_world ''587'') ''config.ini'' ''email'') ''smtp_port'' = Inr (Some (JInt 587))
   \<and> get_key (load_from_ini (port_world ''abc'') ''config.ini'' ''email'') ''smtp_port'' = Inr (Some (JStr ''abc''))
   \<and> get_key (load_from_dotenv (port_world ''587'') ''.env'' ''EMAIL_'') ''smtp_port'' = Inr (Some (JInt 587))
   \<and> get_key (load_from_dotenv (port_world ''abc'') ''.env'' ''EMAIL_'') ''smtp_port'' = Inr (Some (JStr ''abc''))
   \<and> get_key (load_from_ini late_error_world ''config.ini'' ''email'') ''smtp_port''
       = Inr (Some (JStr ''587''))
   \<and> get_key (load_from_ini early_error_world ''config.ini'' ''email'') ''smtp_port'' = Inr None"
proof -
  have n: "py_int ''587'' = Some 587" by code_simp
  have t: "py_int ''abc'' = None" by code_simp
  have loop1: "dotenv_loop ''EMAIL_'' (readlines [] (''EMAIL_SMTP_PORT=587'' @ [CHR 0x0A])) ''smtp_port'' = Some (JStr ''587'')"
    by code_simp
  have loop2: "dotenv_loop ''EMAIL_'' (readlines [] (''EMAIL_SMTP_PORT=abc'' @ [CHR 0x0A])) ''smtp_port'' = Some (JStr ''abc'')"
    by code_simp
  note a = smtp_port_coercion [OF n t, of "port_world ''587''" "''EMAIL_''" "''config.json''"
      "[(''smtp_port'', JStr ''587'')]" "''config.ini''" "[''email'' \<mapsto> [Item ''smtp_port'' ''587'']]"
      "''email''" "[''smtp_port'' \<mapsto> JStr ''587'']" "''.env''" "''EMAIL_SMTP_PORT=587'' @ [CHR 0x0A]"]
  note b = smtp_port_coercion [OF n t, of "port_world ''abc''" "''EMAIL_''" "''config.json''"
      "[(''smtp_port'', JStr ''abc'')]" "''config.ini''" "[''email'' \<mapsto> [Item ''smtp_port'' ''abc'']]"
      "''email''" "[''smtp_port'' \<mapsto> JStr ''abc'']" "''.env''" "''EMAIL_SMTP_PORT=abc'' @ [CHR 0x0A]"]
  note l = smtp_port_coercion [OF n t, of late_error_world "''EMAIL_''" "''config.json''"
      "[]" "''config.ini''"
      "[''email'' \<mapsto> [Item ''smtp_port'' ''587'', ItemRaises ConfigParserError]]"
      "''email''" "[''smtp_port'' \<mapsto> JStr ''587'']" "''.env''" "[]"]
  note e = smtp_port_coercion [OF n t, of early_error_world "''EMAIL_''" "''config.json''"
      "[]" "''config.ini''"
      "[''email'' \<mapsto> [ItemRaises ConfigParserError, Item ''smtp_port'' ''587'']]"
      "''email''" "Map.empty" "''.env''" "[]"]
  have ports: "load_from_env (port_world ''587'') ''EMAIL_'' ''smtp_port'' = Some (JInt 587)
   \<and> load_from_env (port_world ''abc'') ''EMAIL_'' ''smtp_port'' = None
   \<and> load_from_json (port_world ''587'') ''config.json'' = Inr (JObj [(''smtp_port'', JInt 587)])
   \<and> load_from_json (port_world ''abc'') ''config.json'' = Inr (JObj [(''smtp_port'', JStr ''abc'')])
   \<and> get_key (load_from_ini (port_world ''587'') ''config.ini'' ''email'') ''smtp_port'' = Inr (Some (JInt 587))
   \<and> get_key (load_from_ini (port_world ''abc'') ''config.ini'' ''email'') ''smtp_port'' = Inr (Some (JStr ''abc''))
   \<and> get_key (load_from_dotenv (port_world ''587'') ''.env'' ''EMAIL_'') ''smtp_port'' = Inr (Some (JInt 587))
   \<and> get_key (load_from_dotenv (port_world ''abc'') ''.env'' ''EMAIL_'') ''smtp_port'' = Inr (Some (JStr ''abc''))"
    using a b loop1 loop2
    by (simp add: port_world_def quiet_world_def in_parser_def items_def)
  have late: "get_key (load_from_ini late_error_world ''config.ini'' ''email'') ''smtp_port''
       = Inr (Some (JStr ''587''))"
    using l by (simp add: late_error_world_def quiet_world_def in_parser_def items_def)
  have early: "get_key (load_from_ini early_error_world ''config.ini'' ''email'') ''smtp_port''
       = Inr None"
    using e by (simp add: early_error_world_def quiet_world_def in_parser_def items_def)
  from ports late early show ?thesis by simp
qed

text \<open>
  Claim C2 as stated says that a non-numeric \<open>smtp_port\<close> is dropped by every source. The
  JSON, INI and dotenv loaders keep \<open>"abc"\<close> under the key. It also says that \<open>"587"\<close>
  becomes an integer in every source; the INI loader leaves it a string when a later
  item of the section cannot be interpolated.
\<close>

theorem smtp_port_kept_counterexample:
  "load_from_json (port_world ''abc'') ''config.json'' = Inr (JObj [(''smtp_port'', JStr ''abc'')])
   \<and> get_key (load_from_ini (port_world ''abc'') ''config.ini'' ''email'') ''smtp_port''
       = Inr (Some (JStr ''abc''))
   \<and> get_key (load_from_dotenv (port_world ''abc'') ''.env'' ''EMAIL_'') ''smtp_port''
       = Inr (Some (JStr ''abc''))
   \<and> get_key (load_from_ini late_error_world ''config.ini'' ''email'') ''smtp_port''
       = Inr (Some (JStr ''587''))"
proof -
  have t: "py_int ''abc'' = None" by code_simp
  have loop: "dotenv_loop ''EMAIL_'' (readlines [] (''EMAIL_SMTP_PORT=abc'' @ [CHR 0x0A])) ''smtp_port'' = Some (JStr ''abc'')"
    by code_simp
  show ?thesis
    using t loop
    by (simp add: port_world_def late_error_world_def quiet_world_def load_from_json_def
        json_port_def load_from_ini_def load_from_dotenv_def in_parser_def items_def get_key_def
        and_then_def coerce_port_def)
qed


subsection \<open>Priority of the sources in \<open>get_config\<close>\<close>

lemma foldl_update: "foldl (\<lambda>c (k, v). c(k \<mapsto> v)) c kvs = c ++ dict_of kvs"
proof (induction kvs rule: rev_induct)
  case Nil
  then show ?case by (simp add: dict_of_def)
next
  case (snoc x xs)
  then show ?case by (cases x) (auto simp: dict_of_def map_add_def fun_eq_iff)
qed

lemma dict_of_Nil: "dict_of [] = Map.empty"
  by (simp add: dict_of_def)

text \<open>
  Claim C3. Whenever the loaders that \<open>get_config\<close> calls return their fragments (a
  path that is not given counts as the empty fragment), the result is the INI fragment
  overwritten key by key by the dotenv fragment, then by the JSON fragment, then by the
  environment fragment. So for every key the environment value wins when there is one;
  without it the JSON value; without that the dotenv value; and the INI value is left
  only when no other source has the key.
\<close>

theorem get_config_priority:
  assumes ini: "(if truthy ini_path then load_from_ini w (the ini_path) ini_section
                 else Inr Map.empty) = Inr ini"
    and dotenv: "(if truthy dotenv_path then load_from_dotenv w (the dotenv_path) env_prefix
                  else Inr Map.empty) = Inr dotenv"
    and json: "(if truthy json_path then load_from_json w (the json_path)
                else Inr (JObj [])) = Inr (JObj kvs)"
  shows "get_config w env_prefix json_path ini_path dotenv_path ini_section
           = Inr (ini ++ dotenv ++ dict_of kvs ++ load_from_env w env_prefix)
       \<and> (load_from_env w env_prefix k = Some v
            \<longrightarrow> get_key (get_config w env_prefix json_path ini_path dotenv_path ini_section) k
                = Inr (Some v))
       \<and> (load_from_env w env_prefix k = None \<and> dict_of kvs k = Some v
            \<longrightarrow> get_key (get_config w env_prefix json_path ini_path dotenv_path ini_section) k
                = Inr (Some v))
       \<and> (load_from_env w env_prefix k = None \<and> dict_of kvs k = None \<and> dotenv k = Some v
            \<longrightarrow> get_key (get_config w env_prefix json_path ini_path dotenv_path ini_section) k
                = Inr (Some v))
       \<and> (load_from_env w env_prefix k = None \<and> dict_of kvs k = None \<and> dotenv k = None
            \<longrightarrow> get_key (get_config w env_prefix json_path ini_path dotenv_path ini_section) k
                = Inr (ini k))"
proof -
  have step1: "(if truthy ini_path
        then and_then (load_from_ini w (the ini_path) ini_section) (\<lambda>f. Inr (Map.empty ++ f))
        else Inr Map.empty) = Inr ini"
    using ini by (simp add: and_then_def split: if_splits)
  have step2: "(if truthy dotenv_path
        then and_then (load_from_dotenv w (the dotenv_path) env_prefix) (\<lambda>f. Inr (ini ++ f))
        else Inr ini) = Inr (ini ++ dotenv)"
    using dotenv by (auto simp: and_then_def split: if_splits)
  have step3: "(if truthy json_path
        then and_then (load_from_json w (the json_path)) (dict_update (ini ++ dotenv))
        else Inr (ini ++ dotenv)) = Inr (ini ++ dotenv ++ dict_of kvs)"
    using json by (auto simp: and_then_def foldl_update dict_of_Nil split: if_splits)
  have whole: "get_config w env_prefix json_path ini_path dotenv_path ini_section
           = Inr (ini ++ dotenv ++ dict_of kvs ++ load_from_env w env_prefix)"
    unfolding get_config_def step1
    by (simp add: and_then_def step2 step3)
  show ?thesis
    unfolding whole
    by (simp add: get_key_def and_then_def map_add_def split: option.splits)
qed

text \<open>Four sources that disagree on \<open>email\<close>, then with the environment, the JSON file
  and the dotenv file taken away one after the other.\<close>

theorem get_config_priority_witness:
  "get_key (get_config (four_sources True [''c.json'', ''c.ini'', ''.env'']) ''EMAIL_''
      (Some ''c.json'') (Some ''c.ini'') (Some ''.env'') ''email'') ''email''
     = Inr (Some (JStr ''env@example.com''))
   \<and> get_key (get_config (four_sources False [''c.json'', ''c.ini'', ''.env'']) ''EMAIL_''
      (Some ''c.json'') (Some ''c.ini'') (Some ''.env'') ''email'') ''email''
     = Inr (Some (JStr ''json@example.com''))
   \<and> get_key (get_config (four_sources False [''c.ini'', ''.env'']) ''EMAIL_''
      None (Some ''c.ini'') (Some ''.env'') ''email'') ''email''
     = Inr (Some (JStr ''dotenv@example.com''))
   \<and> get_key (get_config (four_sources False [''c.ini'']) ''EMAIL_''
      None (Some ''c.ini'') None ''email'') ''email''
     = Inr (Some (JStr ''ini@example.com''))"
proof -
  define ini :: config where "ini = coerce_port [''email'' \<mapsto> JStr ''ini@example.com'']"
  define dotenv :: config where
    "dotenv = coerce_port (dotenv_loop ''EMAIL_''
       (readlines [] (''EMAIL_ADDRESS=dotenv@example.com'' @ [CHR 0x0A])))"
  have ini: "load_from_ini (four_sources e fs) ''c.ini'' ''email''
      = (if ''c.ini'' \<in> set fs then Inr ini else Inr Map.empty)" for e fs
    by (simp add: four_sources_def quiet_world_def load_from_ini_def in_parser_def items_def
        ini_def)
  have dotenv: "load_from_dotenv (four_sources e fs) ''.env'' ''EMAIL_''
      = (if ''.env'' \<in> set fs then Inr dotenv else Inr Map.empty)" for e fs
    by (simp add: four_sources_def quiet_world_def load_from_dotenv_def dotenv_def)
  have json: "load_from_json (four_sources e fs) ''c.json''
      = (if ''c.json'' \<in> set fs then Inr (JObj [(''email'', JStr ''json@example.com'')])
         else Inr (JObj []))" for e fs
    by (simp add: four_sources_def quiet_world_def load_from_json_def json_port_def)
  have env: "load_from_env (four_sources e fs) ''EMAIL_'' ''email''
      = (if e then Some (JStr ''env@example.com'') else None)" for e fs
    by (simp add: four_sources_def quiet_world_def load_from_env_def truthy_def)
  have ini_at: "ini ''email'' = Some (JStr ''ini@example.com'')"
    unfolding ini_def by code_simp
  have dotenv_at: "dotenv ''email'' = Some (JStr ''dotenv@example.com'')"
    unfolding dotenv_def by code_simp
  note a = get_config_priority [of "Some ''c.ini''" "four_sources True [''c.json'', ''c.ini'', ''.env'']"
      "''email''" ini "Some ''.env''" "''EMAIL_''" dotenv "Some ''c.json''"
      "[(''email'', JStr ''json@example.com'')]" "''email''" "JStr ''env@example.com''"]
  note b = get_config_priority [of "Some ''c.ini''" "four_sources False [''c.json'', ''c.ini'', ''.env'']"
      "''email''" ini "Some ''.env''" "''EMAIL_''" dotenv "Some ''c.json''"
      "[(''email'', JStr ''json@example.com'')]" "''email''" "JStr ''json@example.com''"]
  note c = get_config_priority [of "Some ''c.ini''" "four_sources False [''c.ini'', ''.env'']"
      "''email''" ini "Some ''.env''" "''EMAIL_''" dotenv "None"
      "[]" "''email''" "JStr ''dotenv@example.com''"]
  note d = get_config_priority [of "Some ''c.ini''" "four_sources False [''c.ini'']"
      "''email''" ini "None" "''EMAIL_''" "Map.empty" "None"
      "[]" "''email''" "JStr ''ini@example.com''"]
  show ?thesis
    using a b c d
    by (simp add: ini dotenv json env truthy_def dict_of_def ini_at dotenv_at get_key_def
        and_then_def map_add_def)
qed


subsection \<open>Exceptions that leave the loaders\<close>

text \<open>
  Where the loaders do return an empty fragment: a missing file, an empty environment, a
  JSON syntax error or an I/O error while reading, an INI parse error, a missing INI
  section.
\<close>

lemma loaders_without_source:
  "(\<not> isfile w p \<longrightarrow> load_from_json w p = Inr (JObj []) \<and> load_from_ini w p section = Inr Map.empty
       \<and> load_from_dotenv w p prefix = Inr Map.empty)
   \<and> (environ w = Map.empty \<longrightarrow> load_from_env w prefix = Map.empty)
   \<and> (json_load w p = Raises JSONDecodeError \<or> json_load w p = Raises OSError
        \<longrightarrow> load_from_json w p = Inr (JObj []))
   \<and> (ini_read w p = Raises ConfigParserError \<longrightarrow> load_from_ini w p section = Inr Map.empty)
   \<and> (ini_read w p = Delivers parser \<and> \<not> in_parser parser section
        \<longrightarrow> load_from_ini w p section = Inr Map.empty)
   \<and> (text_read w p = Raises OSError \<longrightarrow> load_from_dotenv w p prefix = Inr Map.empty)"
  by (auto simp: load_from_json_def load_from_ini_def load_from_dotenv_def load_from_env_def
      truthy_def)


text \<open>
  Claim C8 says that no loader raises on an unparsable file. A file that cannot be
  decoded as text makes \<open>load_from_json\<close>, \<open>load_from_ini\<close> and \<open>load_from_dotenv\<close>
  raise \<open>UnicodeDecodeError\<close>, which none of their \<open>except\<close> clauses names; and a JSON
  document that is a number makes \<open>"smtp_port" in config\<close> raise \<open>TypeError\<close>.
\<close>

theorem loaders_raise:
  "load_from_json undecodable_world ''config.json'' = Inl UnicodeDecodeError
   \<and> load_from_ini undecodable_world ''config.ini'' ''email'' = Inl UnicodeDecodeError
   \<and> load_from_dotenv undecodable_world ''.env'' ''EMAIL_'' = Inl UnicodeDecodeError
   \<and> load_from_json scalar_json_world ''config.json'' = Inl TypeError"
  by (simp add: undecodable_world_def scalar_json_world_def quiet_world_def load_from_json_def
      load_from_ini_def load_from_dotenv_def json_port_def)

subsection \<open>The lines of a dotenv file\<close>

lemma startswith_key:
  "sep \<noteq> CHR ''#'' \<Longrightarrow> startswith (key @ sep # val) ''#'' = startswith key ''#''"
  by (cases key) (simp_all add: startswith_def)

lemma dotenv_loop_snoc:
  "dotenv_loop prefix (ls @ [raw]) = dotenv_line prefix raw (dotenv_loop prefix ls)"
  by (simp add: dotenv_loop_def)

text \<open>
  Claim C9, as amended. \<open>load_from_dotenv\<close> starts from the empty fragment and treats
  the lines of the file in order, each stripped of surrounding whitespace. A line that
  is blank or starts with \<open>#\<close> changes nothing. A line that contains \<open>=\<close> is split at its
  first \<open>=\<close>; a line that contains \<open>:\<close> but no \<open>=\<close> is split at its first \<open>:\<close>; a line
  with neither changes nothing. The part before the separator is the key, which changes
  nothing unless it starts with the prefix; if it does, the rest of the key in lower
  case, with \<open>address\<close> renamed to \<open>email\<close>, is set to the part after the separator. The
  fragment is what the lines leave, after the coercion of \<open>smtp_port\<close>; a missing file
  gives the empty fragment.
\<close>

theorem dotenv_line_by_line:
  "dotenv_loop prefix [] = Map.empty
   \<and> dotenv_loop prefix (ls @ [raw]) = dotenv_line prefix raw (dotenv_loop prefix ls)
   \<and> (strip raw = [] \<or> startswith (strip raw) ''#'' \<longrightarrow> dotenv_line prefix raw c = c)
   \<and> (strip raw = key @ CHR ''='' # val \<and> CHR ''='' \<notin> set key \<and> \<not> startswith key ''#''
        \<longrightarrow> dotenv_line prefix raw c =
            (if startswith key prefix
             then c((if lower (drop (length prefix) key) = ''address'' then ''email''
                     else lower (drop (length prefix) key)) \<mapsto> JStr val)
             else c))
   \<and> (strip raw = key @ CHR '':'' # val \<and> CHR '':'' \<notin> set key \<and> CHR ''='' \<notin> set (key @ val)
          \<and> \<not> startswith key ''#''
        \<longrightarrow> dotenv_line prefix raw c =
            (if startswith key prefix
             then c((if lower (drop (length prefix) key) = ''address'' then ''email''
                     else lower (drop (length prefix) key)) \<mapsto> JStr val)
             else c))
   \<and> (CHR ''='' \<notin> set (strip raw) \<and> CHR '':'' \<notin> set (strip raw)
        \<longrightarrow> dotenv_line prefix raw c = c)
   \<and> (isfile w p \<and> text_read w p = Delivers text
        \<longrightarrow> load_from_dotenv w p prefix
            = Inr (coerce_port (dotenv_loop prefix (readlines [] text))))
   \<and> (isfile w p \<and> text_read w p = Delivers text \<and> k \<noteq> ''smtp_port''
        \<longrightarrow> get_key (load_from_dotenv w p prefix) k
            = Inr (dotenv_loop prefix (readlines [] text) k))
   \<and> (\<not> isfile w p \<longrightarrow> load_from_dotenv w p prefix = Inr Map.empty)"
proof -
  have skip: "dotenv_line prefix raw c = c" if "strip raw = [] \<or> startswith (strip raw) ''#''"
    using that by (auto simp: dotenv_line_def)
  have eq: "dotenv_line prefix raw c =
            (if startswith key prefix
             then c((if lower (drop (length prefix) key) = ''address'' then ''email''
                     else lower (drop (length prefix) key)) \<mapsto> JStr val)
             else c)"
    if "strip raw = key @ CHR ''='' # val" "CHR ''='' \<notin> set key" "\<not> startswith key ''#''"
    using that by (simp add: dotenv_line_def startswith_key split1_at Let_def)
  have colon: "dotenv_line prefix raw c =
            (if startswith key prefix
             then c((if lower (drop (length prefix) key) = ''address'' then ''email''
                     else lower (drop (length prefix) key)) \<mapsto> JStr val)
             else c)"
    if "strip raw = key @ CHR '':'' # val" "CHR '':'' \<notin> set key" "CHR ''='' \<notin> set (key @ val)"
       "\<not> startswith key ''#''"
    using that by (simp add: dotenv_line_def startswith_key split1_at Let_def)
  have none: "dotenv_line prefix raw c = c"
    if "CHR ''='' \<notin> set (strip raw)" "CHR '':'' \<notin> set (strip raw)"
    using that by (simp add: dotenv_line_def Let_def)
  have load: "load_from_dotenv w p prefix
            = Inr (coerce_port (dotenv_loop prefix (readlines [] text)))"
    if "isfile w p" "text_read w p = Delivers text"
    using that by (simp add: load_from_dotenv_def)
  have at: "get_key (load_from_dotenv w p prefix) k
            = Inr (dotenv_loop prefix (readlines [] text) k)"
    if "isfile w p" "text_read w p = Delivers text" "k \<noteq> ''smtp_port''"
    using that by (simp add: load get_key_def and_then_def coerce_port_other)
  have missing: "load_from_dotenv w p prefix = Inr Map.empty" if "\<not> isfile w p"
    using that by (simp add: load_from_dotenv_def)
  have nil: "dotenv_loop prefix [] = Map.empty"
    by (simp add: dotenv_loop_def)
  show ?thesis
    using nil skip eq colon none load at missing dotenv_loop_snoc by blast
qed

text \<open>The lines \<open>EMAIL_ADDRESS=x@y.com\<close> and \<open>FOO=bar\<close> with the prefix \<open>EMAIL_\<close>, and a whole file.\<close>

theorem dotenv_line_by_line_witness:
  "dotenv_line ''EMAIL_'' (''EMAIL_ADDRESS=x@y.com'' @ [CHR 0x0A]) Map.empty ''email''
     = Some (JStr ''x@y.com'')
   \<and> dotenv_line ''EMAIL_'' (''FOO=bar'' @ [CHR 0x0A]) Map.empty = Map.empty
   \<and> dotenv_line ''EMAIL_'' (''EMAIL_SMTP_SERVER:smtp.y.com'' @ [CHR 0x0A]) Map.empty ''smtp_server''
     = Some (JStr ''smtp.y.com'')
   \<and> dotenv_line ''EMAIL_'' (''# mail settings'' @ [CHR 0x0A]) Map.empty = Map.empty
   \<and> load_from_dotenv dotenv_world ''.env'' ''EMAIL_''
     = Inr (coerce_port (dotenv_loop ''EMAIL_'' (readlines [] dotenv_text)))
   \<and> get_key (load_from_dotenv dotenv_world ''.env'' ''EMAIL_'') ''email''
     = Inr (Some (JStr ''x@y.com''))
   \<and> get_key (load_from_dotenv dotenv_world ''.env'' ''EMAIL_'') ''smtp_server''
     = Inr (Some (JStr ''smtp.y.com''))
   \<and> get_key (load_from_dotenv dotenv_world ''.env'' ''EMAIL_'') ''foo'' = Inr None
   \<and> get_key (load_from_dotenv dotenv_world ''.env'' ''EMAIL_'') ''FOO'' = Inr None"
proof -
  have s1: "strip (''EMAIL_ADDRESS=x@y.com'' @ [CHR 0x0A]) = ''EMAIL_ADDRESS'' @ CHR ''='' # ''x@y.com''"
    by code_simp
  have s2: "strip (''FOO=bar'' @ [CHR 0x0A]) = ''FOO'' @ CHR ''='' # ''bar''"
    by code_simp
  have s3: "strip (''EMAIL_SMTP_SERVER:smtp.y.com'' @ [CHR 0x0A]) = ''EMAIL_SMTP_SERVER'' @ CHR '':'' # ''smtp.y.com''"
    by code_simp
  have s4: "startswith (strip (''# mail settings'' @ [CHR 0x0A])) ''#''"
    by code_simp
  have l1: "lower ''ADDRESS'' = ''address''" by code_simp
  have l3: "lower ''SMTP_SERVER'' = ''smtp_server''" by code_simp
  have v1: "coerce_port (dotenv_loop ''EMAIL_'' (readlines [] dotenv_text)) ''email'' = Some (JStr ''x@y.com'')"
    by code_simp
  have v2: "coerce_port (dotenv_loop ''EMAIL_'' (readlines [] dotenv_text)) ''smtp_server'' = Some (JStr ''smtp.y.com'')"
    by code_simp
  have v3: "coerce_port (dotenv_loop ''EMAIL_'' (readlines [] dotenv_text)) ''foo'' = None"
    by code_simp
  have v4: "coerce_port (dotenv_loop ''EMAIL_'' (readlines [] dotenv_text)) ''FOO'' = None"
    by code_simp
  note a = dotenv_line_by_line [of "''EMAIL_''" "[]" "''EMAIL_ADDRESS=x@y.com'' @ [CHR 0x0A]" Map.empty
      "''EMAIL_ADDRESS''" "''x@y.com''" dotenv_world "''.env''" dotenv_text]
  note b = dotenv_line_by_line [of "''EMAIL_''" "[]" "''FOO=bar'' @ [CHR 0x0A]" Map.empty
      "''FOO''" "''bar''" dotenv_world "''.env''" dotenv_text]
  note c = dotenv_line_by_line [of "''EMAIL_''" "[]" "''EMAIL_SMTP_SERVER:smtp.y.com'' @ [CHR 0x0A]" Map.empty
      "''EMAIL_SMTP_SERVER''" "''smtp.y.com''" dotenv_world "''.env''" dotenv_text]
  note d = dotenv_line_by_line [of "''EMAIL_''" "[]" "''# mail settings'' @ [CHR 0x0A]" Map.empty
      "[]" "[]" dotenv_world "''.env''" dotenv_text]
  have w: "isfile dotenv_world ''.env''" "text_read dotenv_world ''.env'' = Delivers dotenv_text"
    by (simp_all add: dotenv_world_def quiet_world_def)
  have r1: "dotenv_line ''EMAIL_'' (''EMAIL_ADDRESS=x@y.com'' @ [CHR 0x0A]) Map.empty ''email''
     = Some (JStr ''x@y.com'')"
    using a s1 l1 by (simp add: startswith_def)
  have r2: "dotenv_line ''EMAIL_'' (''FOO=bar'' @ [CHR 0x0A]) Map.empty = Map.empty"
    using b s2 by (simp add: startswith_def)
  have r3: "dotenv_line ''EMAIL_'' (''EMAIL_SMTP_SERVER:smtp.y.com'' @ [CHR 0x0A]) Map.empty ''smtp_server''
     = Some (JStr ''smtp.y.com'')"
    using c s3 l3 by (simp add: startswith_def)
  have r4: "dotenv_line ''EMAIL_'' (''# mail settings'' @ [CHR 0x0A]) Map.empty = Map.empty"
    using d s4 by simp
  have r5: "load_from_dotenv dotenv_world ''.env'' ''EMAIL_''
     = Inr (coerce_port (dotenv_loop ''EMAIL_'' (readlines [] dotenv_text)))"
    using a w by simp
  show ?thesis
    unfolding r5 using r1 r2 r3 r4 v1 v2 v3 v4
    by (simp add: get_key_def and_then_def)
qed

text \<open>
  Claim C9 as stated has \<open>KEY:value\<close> lines read as key and value. The line
  \<open>EMAIL_ADDRESS:x=y@z.com\<close> is split at its \<open>=\<close>: the fragment has no \<open>email\<close>, and the
  key \<open>address:x\<close> instead.
\<close>

theorem dotenv_colon_counterexample:
  "get_key (load_from_dotenv colon_world ''.env'' ''EMAIL_'') ''email'' = Inr None
   \<and> get_key (load_from_dotenv colon_world ''.env'' ''EMAIL_'') ''address:x''
       = Inr (Some (JStr ''y@z.com''))"
proof -
  have a: "coerce_port (dotenv_loop ''EMAIL_'' (readlines [] (''EMAIL_ADDRESS:x=y@z.com'' @ [CHR 0x0A])))
      ''email'' = None"
    by code_simp
  have b: "coerce_port (dotenv_loop ''EMAIL_'' (readlines [] (''EMAIL_ADDRESS:x=y@z.com'' @ [CHR 0x0A])))
      ''address:x'' = Some (JStr ''y@z.com'')"
    by code_simp
  show ?thesis
    using a b
    by (simp add: colon_world_def quiet_world_def load_from_dotenv_def get_key_def and_then_def)
qed

section \<open>Sending\<close>

subsection \<open>Auxiliary facts\<close>

lemma attach_files_filter:
  "attach_files w (filter (isfile w) fs) ps = attach_files w fs ps"
  by (induction fs arbitrary: ps) (auto split: sum.splits)

lemma run_ops_calls:
  "\<exists>n. fst (run_ops srv done xs) = done @ take n xs \<and> (xs \<noteq> [] \<longrightarrow> 0 < n)"
proof (induction xs arbitrary: "done")
  case Nil
  then show ?case by simp
next
  case (Cons x xs)
  show ?case
  proof (cases "srv (done @ [x])")
    case None
    from Cons [of "done @ [x]"] obtain n where
      "fst (run_ops srv (done @ [x]) xs) = (done @ [x]) @ take n xs" by blast
    then have "fst (run_ops srv done (x # xs)) = done @ take (Suc n) (x # xs)"
      using None by simp
    then show ?thesis by blast
  next
    case (Some e)
    then have "fst (run_ops srv done (x # xs)) = done @ take (Suc 0) (x # xs)" by simp
    then show ?thesis by blast
  qed
qed

lemma run_ops_accepting:
  "(\<And>t. srv t = None) \<Longrightarrow> run_ops srv done xs = (done @ xs, None)"
  by (induction xs arbitrary: "done") auto

lemma run_ops_None:
  "run_ops srv done xs = (d, None) \<Longrightarrow> d = done @ xs"
proof (induction xs arbitrary: "done")
  case Nil
  then show ?case by simp
next
  case (Cons x xs)
  from Cons.prems have "srv (done @ [x]) = None" "run_ops srv (done @ [x]) xs = (d, None)"
    by (auto split: option.splits)
  from Cons.IH [OF this(2)] show ?case by simp
qed

lemma quit_calls:
  "fst (case srv (d @ [Quit]) of
          None \<Rightarrow> (d @ [Quit], r)
        | Some (SMTPServerDisconnected m) \<Rightarrow> (d @ [Quit], r)
        | Some e \<Rightarrow> (d @ [Quit], Some e)) = d @ [Quit]"
  by (simp split: option.splits exn.splits)

lemma session_calls:
  assumes "before \<noteq> []"
  shows "fst (session srv c before render after) = [c]
       \<or> (\<exists>n. 0 < n \<and> fst (session srv c before render after)
                         = c # take n (before @ after) @ [Quit])"
proof (cases "srv [c]")
  case (Some e)
  then show ?thesis by (simp add: session_def)
next
  case None
  define steps where "steps =
    (case run_ops srv [c] before of
       (done, Some e) \<Rightarrow> (done, Some e)
     | (done, None) \<Rightarrow>
         (case render of Some e \<Rightarrow> (done, Some e) | None \<Rightarrow> run_ops srv done after))"
  have whole: "fst (session srv c before render after) = fst steps @ [Quit]"
    using None unfolding session_def steps_def [symmetric]
    by (cases steps) (simp add: quit_calls)
  obtain d1 r1 where first: "run_ops srv [c] before = (d1, r1)"
    by (cases "run_ops srv [c] before")
  obtain n1 where n1: "d1 = [c] @ take n1 before" "0 < n1"
    using run_ops_calls [of srv "[c]" before] assms first by auto
  have "\<exists>n. 0 < n \<and> fst steps = c # take n (before @ after)"
  proof (cases r1)
    case (Some e)
    then have "fst steps = c # take (min n1 (length before)) (before @ after)"
      using first n1 by (simp add: steps_def min_def)
    moreover have "0 < min n1 (length before)" using n1 assms by simp
    ultimately show ?thesis by blast
  next
    case r1: None
    then have d1: "d1 = c # before" using run_ops_None first by fastforce
    show ?thesis
    proof (cases render)
      case (Some e)
      then have "fst steps = c # take (length before) (before @ after)"
        using first r1 d1 by (simp add: steps_def)
      moreover have "0 < length before" using assms by simp
      ultimately show ?thesis by blast
    next
      case None
      obtain n2 where "fst (run_ops srv d1 after) = d1 @ take n2 after"
        using run_ops_calls [of srv d1 after] by blast
      then have "fst steps = c # take (length before + n2) (before @ after)"
        using first r1 d1 None by (simp add: steps_def)
      moreover have "0 < length before + n2" using assms by simp
      ultimately show ?thesis by blast
    qed
  qed
  with whole show ?thesis by auto
qed

lemma session_accepting:
  "(\<And>t. srv t = None) \<Longrightarrow>
     session srv c before None after = (c # before @ after @ [Quit], None)"
  by (simp add: session_def run_ops_accepting)


lemma session_members:
  assumes "x \<in> set (fst (session srv c before render after))" and "before \<noteq> []"
  shows "x = c \<or> x \<in> set before \<or> x \<in> set after \<or> x = Quit"
  using session_calls [OF assms(2), of srv c render after] assms(1)
  by (auto dest: in_set_takeD)

lemma listed_simps:
  "listed h None = []"
  "listed h (Some (ListRef b)) = h b"
  "listed h (Some (Str s)) = (if s = [] then [] else [s])"
  by (simp_all add: listed_def given_def as_list_def)

lemma list_extend_Nil: "list_extend h tv [] = (h, tv)"
  by (cases tv) (simp_all add: list_extend_def)

lemma extend_if_given:
  "(if given h x then list_extend h tv (as_list h x) else (h, tv)) = list_extend h tv (listed h x)"
  by (simp add: listed_def list_extend_Nil)

text \<open>The store and the variable after the two extensions.\<close>

lemma extended_twice:
  "list_extend (fst (list_extend h tv (listed h cc))) (snd (list_extend h tv (listed h cc)))
     (listed (fst (list_extend h tv (listed h cc))) bcc)
   = (case tv of
        Fresh xs \<Rightarrow> (h, Fresh (xs @ listed h cc @ listed h bcc))
      | Shared a \<Rightarrow>
          (h(a := h a @ listed h cc
                  @ (if bcc = Some (ListRef a) then h a @ listed h cc else listed h bcc)),
           Shared a))"
proof (cases tv)
  case (Fresh xs)
  then show ?thesis by (simp add: list_extend_def)
next
  case (Shared a)
  have b: "listed (h(a := h a @ listed h cc)) bcc
      = (if bcc = Some (ListRef a) then h a @ listed h cc else listed h bcc)"
  proof (cases bcc)
    case None
    then show ?thesis by (simp add: listed_simps)
  next
    case (Some r)
    then show ?thesis by (cases r) (simp_all add: listed_simps)
  qed
  show ?thesis using Shared by (simp add: list_extend_def b)
qed

text \<open>
  \<open>send_email\<close> in one piece: the recipients handed to \<open>sendmail\<close>, the store it
  leaves, and the two ways it can end.
\<close>

lemma send_email_unfold:
  "send_email w h self to_arg subject body html attachments cc bcc =
     (let tv = (case to_arg of Str s \<Rightarrow> Fresh [s] | ListRef a \<Rightarrow> Shared a);
          s1 = list_extend h tv (listed h cc);
          s2 = list_extend (fst s1) (snd s1) (listed (fst s1) bcc)
      in case attach_files w (case attachments of None \<Rightarrow> [] | Some fs \<Rightarrow> fs)
               [if html then MIMEText ''html'' body else MIMEText ''plain'' body] of
           Inl e \<Rightarrow> \<lparr>outcome = Inl e, printed = [], calls = [], lists = fst s2\<rparr>
         | Inr ps \<Rightarrow>
             (case create_context w of
                Some e \<Rightarrow>
                  \<lparr>outcome = Inr False, printed = handler e, calls = [], lists = fst s2\<rparr>
              | None \<Rightarrow>
                  (case session (server w)
                     (fst (transport self (content (fst s2) (snd s2))
                        \<lparr>headers = build_headers self h tv subject cc, parts = ps\<rparr>))
                     (fst (snd (transport self (content (fst s2) (snd s2))
                        \<lparr>headers = build_headers self h tv subject cc, parts = ps\<rparr>)))
                     (as_string w \<lparr>headers = build_headers self h tv subject cc, parts = ps\<rparr>)
                     (snd (snd (transport self (content (fst s2) (snd s2))
                        \<lparr>headers = build_headers self h tv subject cc, parts = ps\<rparr>))) of
                (done, r) \<Rightarrow>
                  \<lparr>outcome = Inr (r = None),
                   printed = (case r of None \<Rightarrow> [] | Some e \<Rightarrow> handler e),
                   calls = done, lists = fst s2\<rparr>)))"
  unfolding send_email_def extend_if_given
  by (simp add: Let_def split: prod.splits option.splits sum.splits)

lemma send_email_result:
  "send_email w h self to_arg subject body html attachments cc bcc =
     (let h' = (case to_arg of Str s \<Rightarrow> h | ListRef a \<Rightarrow> h(a := envelope h to_arg cc bcc))
      in case attach_files w (case attachments of None \<Rightarrow> [] | Some fs \<Rightarrow> fs)
               [if html then MIMEText ''html'' body else MIMEText ''plain'' body] of
           Inl e \<Rightarrow> \<lparr>outcome = Inl e, printed = [], calls = [], lists = h'\<rparr>
         | Inr ps \<Rightarrow>
             (case create_context w of
                Some e \<Rightarrow>
                  \<lparr>outcome = Inr False, printed = handler e, calls = [], lists = h'\<rparr>
              | None \<Rightarrow>
                  (case session (server w)
                     (fst (transport self (envelope h to_arg cc bcc)
                        \<lparr>headers = header_list self h to_arg subject cc, parts = ps\<rparr>))
                     (fst (snd (transport self (envelope h to_arg cc bcc)
                        \<lparr>headers = header_list self h to_arg subject cc, parts = ps\<rparr>)))
                     (as_string w \<lparr>headers = header_list self h to_arg subject cc, parts = ps\<rparr>)
                     (snd (snd (transport self (envelope h to_arg cc bcc)
                        \<lparr>headers = header_list self h to_arg subject cc, parts = ps\<rparr>))) of
                (done, r) \<Rightarrow>
                  \<lparr>outcome = Inr (r = None),
                   printed = (case r of None \<Rightarrow> [] | Some e \<Rightarrow> handler e),
                   calls = done, lists = h'\<rparr>)))"
proof (cases to_arg)
  case (Str s)
  have s2: "list_extend (fst (list_extend h (Fresh [s]) (listed h cc)))
       (snd (list_extend h (Fresh [s]) (listed h cc)))
       (listed (fst (list_extend h (Fresh [s]) (listed h cc))) bcc)
     = (h, Fresh ([s] @ listed h cc @ listed h bcc))"
    using extended_twice [of h "Fresh [s]" cc bcc] by simp
  have sl: "same_list (Str s) bcc = False"
    by (simp add: same_list_def)
  show ?thesis
    unfolding send_email_unfold Str Let_def recipients.case s2 sl
    by (simp add: as_list_def content_def build_headers_def split del: if_split
        cong: sum.case_cong prod.case_cong option.case_cong if_cong)
next
  case (ListRef a)
  have s2: "list_extend (fst (list_extend h (Shared a) (listed h cc)))
       (snd (list_extend h (Shared a) (listed h cc)))
       (listed (fst (list_extend h (Shared a) (listed h cc))) bcc)
     = (h(a := h a @ listed h cc
                  @ (if bcc = Some (ListRef a) then h a @ listed h cc else listed h bcc)),
        Shared a)"
    using extended_twice [of h "Shared a" cc bcc] by simp
  have sl: "same_list (ListRef a) bcc = (bcc = Some (ListRef a))"
    by (auto simp: same_list_def split: option.splits recipients.splits)
  show ?thesis
    unfolding send_email_unfold ListRef Let_def recipients.case s2 sl
    by (simp add: as_list_def content_def build_headers_def split del: if_split
        cong: sum.case_cong prod.case_cong option.case_cong if_cong)
qed

lemma send_email_lists:
  "lists (send_email w h self to_arg subject body html attachments cc bcc)
     = (case to_arg of Str s \<Rightarrow> h | ListRef a \<Rightarrow> h(a := envelope h to_arg cc bcc))"
  unfolding send_email_result Let_def
  by (simp split: sum.split prod.split option.split)

lemma send_email_calls:
  "calls (send_email w h self to_arg subject body html attachments cc bcc)
     = (case attach_files w (case attachments of None \<Rightarrow> [] | Some fs \<Rightarrow> fs)
               [if html then MIMEText ''html'' body else MIMEText ''plain'' body] of
          Inl e \<Rightarrow> []
        | Inr ps \<Rightarrow>
            (case create_context w of
               Some e \<Rightarrow> []
             | None \<Rightarrow>
                 fst (session (server w)
                     (fst (transport self (envelope h to_arg cc bcc)
                        \<lparr>headers = header_list self h to_arg subject cc, parts = ps\<rparr>))
                     (fst (snd (transport self (envelope h to_arg cc bcc)
                        \<lparr>headers = header_list self h to_arg subject cc, parts = ps\<rparr>)))
                     (as_string w \<lparr>headers = header_list self h to_arg subject cc, parts = ps\<rparr>)
                     (snd (snd (transport self (envelope h to_arg cc bcc)
                        \<lparr>headers = header_list self h to_arg subject cc, parts = ps\<rparr>))))))"
  unfolding send_email_result Let_def
  by (simp split: sum.split prod.split option.split)

lemma send_email_outcome:
  "outcome (send_email w h self to_arg subject body html attachments cc bcc)
     = (case attach_files w (case attachments of None \<Rightarrow> [] | Some fs \<Rightarrow> fs)
               [if html then MIMEText ''html'' body else MIMEText ''plain'' body] of
          Inl e \<Rightarrow> Inl e
        | Inr ps \<Rightarrow>
            (case create_context w of
               Some e \<Rightarrow> Inr False
             | None \<Rightarrow>
                 Inr (snd (session (server w)
                     (fst (transport self (envelope h to_arg cc bcc)
                        \<lparr>headers = header_list self h to_arg subject cc, parts = ps\<rparr>))
                     (fst (snd (transport self (envelope h to_arg cc bcc)
                        \<lparr>headers = header_list self h to_arg subject cc, parts = ps\<rparr>)))
                     (as_string w \<lparr>headers = header_list self h to_arg subject cc, parts = ps\<rparr>)
                     (snd (snd (transport self (envelope h to_arg cc bcc)
                        \<lparr>headers = header_list self h to_arg subject cc, parts = ps\<rparr>))))
                 = None)))"
  unfolding send_email_result Let_def
  by (simp split: sum.split prod.split option.split)

lemma quiet_session:
  "session (server quiet_world) c before None after = (c # before @ after @ [Quit], None)"
  by (rule session_accepting) (simp add: quiet_world_def)

lemma quiet_library:
  "create_context quiet_world = None" "as_string quiet_world m = None"
  by (simp_all add: quiet_world_def)

lemma quiet_attach: "attach_files quiet_world fs ps = Inr ps"
  by (induction fs arbitrary: ps) (simp_all add: quiet_world_def)

subsection \<open>Attachments that do not exist\<close>

text \<open>
  Claim C1, as amended. A path in \<open>attachments\<close> that is not an existing file is skipped:
  the call behaves exactly as the call without that path, and as the call without
  attachments when none of the paths exists. Nothing is attached for it, and the send is
  not aborted on its account.
\<close>

theorem missing_attachment_skipped:
  "send_email w h self to_arg subject body html (Some fs) cc bcc
     = send_email w h self to_arg subject body html (Some (filter (isfile w) fs)) cc bcc
   \<and> ((\<forall>f \<in> set fs. \<not> isfile w f)
        \<longrightarrow> send_email w h self to_arg subject body html (Some fs) cc bcc
            = send_email w h self to_arg subject body html None cc bcc)"
proof -
  have none: "filter (isfile w) fs = []" if "\<forall>f \<in> set fs. \<not> isfile w f"
    using that by (induction fs) auto
  have skip: "attach_files w fs ps = attach_files w [] ps" if "\<forall>f \<in> set fs. \<not> isfile w f" for ps
    using attach_files_filter [of w fs ps] none [OF that] by simp
  have 1: "send_email w h self to_arg subject body html (Some fs) cc bcc
     = send_email w h self to_arg subject body html (Some (filter (isfile w) fs)) cc bcc"
    unfolding send_email_def by (simp only: option.case attach_files_filter)
  have 2: "send_email w h self to_arg subject body html (Some fs) cc bcc
            = send_email w h self to_arg subject body html None cc bcc"
    if "\<forall>f \<in> set fs. \<not> isfile w f"
    unfolding send_email_def by (simp only: option.case skip [OF that])
  from 1 2 show ?thesis by blast
qed

text \<open>A missing file next to an existing one, and a missing file alone.\<close>

theorem missing_attachment_skipped_witness:
  "send_email files_world lists0 alice (Str ''bob@example.com'') ''Hi'' ''Hello'' False
        (Some [''missing.txt'', ''docs/report.pdf'']) None None
     = send_email files_world lists0 alice (Str ''bob@example.com'') ''Hi'' ''Hello'' False
        (Some [''docs/report.pdf'']) None None
   \<and> send_email quiet_world lists0 alice (Str ''bob@example.com'') ''Hi'' ''Hello'' False
        (Some [''missing.txt'']) None None
     = send_email quiet_world lists0 alice (Str ''bob@example.com'') ''Hi'' ''Hello'' False
        None None None"
proof -
  have f: "filter (isfile files_world) [''missing.txt'', ''docs/report.pdf''] = [''docs/report.pdf'']"
    by (simp add: files_world_def quiet_world_def)
  have g: "\<forall>f \<in> set [''missing.txt'']. \<not> isfile quiet_world f"
    by (simp add: quiet_world_def)
  note a = missing_attachment_skipped [of files_world lists0 alice "Str ''bob@example.com''" "''Hi''"
      "''Hello''" False "[''missing.txt'', ''docs/report.pdf'']" None None, THEN conjunct1,
      unfolded f]
  note b = missing_attachment_skipped [of quiet_world lists0 alice "Str ''bob@example.com''" "''Hi''"
      "''Hello''" False "[''missing.txt'']" None None, THEN conjunct2, THEN mp, OF g]
  from a b show ?thesis by (rule conjI)
qed

text \<open>
  Claim C1 as stated says that a missing attachment makes the send fail before any
  network call. With a server that accepts everything, the call with the one attachment
  \<open>missing.txt\<close> returns \<open>True\<close> after a complete session.
\<close>

theorem missing_attachment_sent_counterexample:
  "\<not> isfile quiet_world ''missing.txt''
   \<and> outcome (send_email quiet_world lists0 alice (Str ''bob@example.com'') ''Hi'' ''Hello'' False
        (Some [''missing.txt'']) None None) = Inr True
   \<and> calls (send_email quiet_world lists0 alice (Str ''bob@example.com'') ''Hi'' ''Hello'' False
        (Some [''missing.txt'']) None None)
     = [SMTP ''smtp.example.com'' 587, Ehlo, StartTLS, Ehlo,
        Login ''alice@example.com'' ''secret'',
        Sendmail ''alice@example.com'' [''bob@example.com'']
          \<lparr>headers = [(''Content-Type'', ''multipart/mixed''), (''MIME-Version'', ''1.0''),
                      (''From'', ''alice@example.com''), (''To'', ''bob@example.com''),
                      (''Subject'', ''Hi'')],
           parts = [MIMEText ''plain'' ''Hello'']\<rparr>,
        Quit]"
  by (simp add: send_email_calls send_email_outcome quiet_attach quiet_session quiet_library
      transport_def alice_def listed_simps same_list_def as_list_def given_def)
     (simp add: quiet_world_def)

subsection \<open>Exceptions that leave \<open>send_email\<close>\<close>

text \<open>
  The \<open>try\<close> covers the session only. The call returns a boolean whenever every
  attachment that exists can be read, and an exception leaves it exactly when reading an
  attachment raises. Whatever raises inside the \<open>try\<close> (creating the SSL context, the
  server, rendering the message) ends in \<open>False\<close>.
\<close>

lemma send_email_raises_iff:
  "outcome (send_email w h self to_arg subject body html attachments cc bcc) = Inl e
   \<longleftrightarrow> attach_files w (case attachments of None \<Rightarrow> [] | Some fs \<Rightarrow> fs)
         [if html then MIMEText ''html'' body else MIMEText ''plain'' body] = Inl e"
  by (simp add: send_email_outcome split: sum.splits option.splits)

lemma send_email_returns:
  assumes "\<forall>f \<in> set (case attachments of None \<Rightarrow> [] | Some fs \<Rightarrow> fs).
             isfile w f \<longrightarrow> (\<exists>d. read_bytes w f = Inr d)"
  shows "\<exists>b. outcome (send_email w h self to_arg subject body html attachments cc bcc) = Inr b"
proof -
  have "\<exists>ps'. attach_files w fs ps = Inr ps'"
    if "\<forall>f \<in> set fs. isfile w f \<longrightarrow> (\<exists>d. read_bytes w f = Inr d)" for fs ps
    using that by (induction fs arbitrary: ps) auto
  from this [OF assms] obtain ps' where
    "attach_files w (case attachments of None \<Rightarrow> [] | Some fs \<Rightarrow> fs)
       [if html then MIMEText ''html'' body else MIMEText ''plain'' body] = Inr ps'"
    by blast
  then show ?thesis
    by (cases "create_context w") (auto simp: send_email_outcome)
qed

text \<open>
  Claim C4 says that no exception ever leaves \<open>send_email\<close>. An attachment that exists
  but cannot be opened is read before the \<open>try\<close>: the exception of \<open>open\<close> leaves the
  call, which returns nothing, prints nothing and never reaches the server.
\<close>

theorem unreadable_attachment_raises:
  "isfile files_world ''secret.bin''
   \<and> outcome (send_email files_world lists0 alice (Str ''bob@example.com'') ''Hi'' ''Hello'' False
        (Some [''secret.bin'']) None None)
     = Inl (OtherException ''[Errno 13] Permission denied'')
   \<and> calls (send_email files_world lists0 alice (Str ''bob@example.com'') ''Hi'' ''Hello'' False
        (Some [''secret.bin'']) None None) = []
   \<and> printed (send_email files_world lists0 alice (Str ''bob@example.com'') ''Hi'' ''Hello'' False
        (Some [''secret.bin'']) None None) = []"
  by (simp add: send_email_result files_world_def quiet_world_def)

subsection \<open>The session chosen by the port\<close>



subsection \<open>Envelope and headers\<close>

text \<open>
  Claim C6, as amended. Whenever \<open>sendmail\<close> is called, the sender is the stored
  address; the recipients are the primary recipients, then those of \<open>cc\<close>, then those of
  \<open>bcc\<close>, provided \<open>bcc\<close> is not the very list object passed as \<open>to_emails\<close> (if it is,
  that list as already extended by \<open>cc\<close> is appended to itself); and the headers are those
  of \<open>MIMEMultipart()\<close>, then \<open>From\<close> with the stored address, \<open>To\<close> with the primary
  recipients joined by a comma and a space, \<open>Subject\<close>, and \<open>Cc\<close> exactly when \<open>cc\<close> is
  given. No header depends on \<open>bcc\<close>.
\<close>

theorem envelope_and_headers:
  assumes "Sendmail frm tos msg
             \<in> set (calls (send_email w h self to_arg subject body html attachments cc bcc))"
  shows "frm = email self
       \<and> tos = as_list h (Some to_arg) @ listed h cc
                @ (if same_list to_arg bcc then as_list h (Some to_arg) @ listed h cc
                   else listed h bcc)
       \<and> (\<not> same_list to_arg bcc
            \<longrightarrow> tos = as_list h (Some to_arg) @ listed h cc @ listed h bcc)
       \<and> headers msg =
           [(''Content-Type'', ''multipart/mixed''), (''MIME-Version'', ''1.0''),
            (''From'', email self),
            (''To'', join '', '' (as_list h (Some to_arg))),
            (''Subject'', subject)]
           @ (if given h cc then [(''Cc'', join '', '' (as_list h cc))] else [])"
proof (cases "attach_files w (case attachments of None \<Rightarrow> [] | Some fs \<Rightarrow> fs)
               [if html then MIMEText ''html'' body else MIMEText ''plain'' body]")
  case (Inl e)
  with assms show ?thesis by (simp add: send_email_calls)
next
  case (Inr ps)
  show ?thesis
  proof (cases "create_context w")
    case (Some e)
    with Inr assms show ?thesis by (simp add: send_email_calls)
  next
    case None
    define msg' where "msg' = \<lparr>headers = header_list self h to_arg subject cc, parts = ps\<rparr>"
    have nonempty: "fst (snd (transport self (envelope h to_arg cc bcc) msg')) \<noteq> []"
      by (simp add: transport_def)
    from None Inr assms have mem: "Sendmail frm tos msg \<in> set (fst (session (server w)
            (fst (transport self (envelope h to_arg cc bcc) msg'))
            (fst (snd (transport self (envelope h to_arg cc bcc) msg')))
            (as_string w msg')
            (snd (snd (transport self (envelope h to_arg cc bcc) msg')))))"
      by (simp add: send_email_calls msg'_def)
    have "frm = email self \<and> tos = envelope h to_arg cc bcc \<and> msg = msg'"
      using session_members [OF mem nonempty]
      by (auto simp: transport_def split: if_splits)
    then show ?thesis by (simp add: msg'_def)
  qed
qed

text \<open>A list of one primary recipient, a list of two in \<open>cc\<close>, a string in \<open>bcc\<close>.\<close>

theorem envelope_and_headers_witness:
  "envelope_of (calls (send_email quiet_world lists0 alice (ListRef 0) ''Hi'' ''Hello'' False None
            (Some (ListRef 1)) (Some (Str ''erin@example.com''))))
     = Some [''bob@example.com'', ''carol@example.com'', ''dave@example.com'', ''erin@example.com'']
   \<and> map_option headers
       (message_of (calls (send_email quiet_world lists0 alice (ListRef 0) ''Hi'' ''Hello'' False None
            (Some (ListRef 1)) (Some (Str ''erin@example.com'')))))
     = Some [(''Content-Type'', ''multipart/mixed''), (''MIME-Version'', ''1.0''),
             (''From'', ''alice@example.com''), (''To'', ''bob@example.com''),
             (''Subject'', ''Hi''), (''Cc'', ''carol@example.com, dave@example.com'')]"
proof -
  let ?r = "send_email quiet_world lists0 alice (ListRef 0) ''Hi'' ''Hello'' False None
            (Some (ListRef 1)) (Some (Str ''erin@example.com''))"
  obtain tos msg where c: "calls ?r =
      [SMTP ''smtp.example.com'' 587, Ehlo, StartTLS, Ehlo,
       Login ''alice@example.com'' ''secret'', Sendmail ''alice@example.com'' tos msg, Quit]"
    by (simp add: send_email_calls quiet_attach quiet_session quiet_library transport_def
        alice_def)
  then have "Sendmail ''alice@example.com'' tos msg \<in> set (calls ?r)" by simp
  from envelope_and_headers [OF this] show ?thesis
    unfolding c
    by (simp add: same_list_def listed_simps lists0_def as_list_def given_def alice_def)
qed

text \<open>
  Claim C6 as stated gives the envelope as primary, CC and BCC concatenated, for every
  call. When \<open>bcc\<close> is the list passed as \<open>to_emails\<close> and \<open>cc\<close> is given, the envelope
  repeats the CC recipients a second time.
\<close>

theorem envelope_duplicated_counterexample:
  "envelope_of (calls (send_email quiet_world lists0 alice (ListRef 0) ''Hi'' ''Hello'' False None
            (Some (ListRef 1)) (Some (ListRef 0))))
     = Some [''bob@example.com'', ''carol@example.com'', ''dave@example.com'',
             ''bob@example.com'', ''carol@example.com'', ''dave@example.com'']
   \<and> lists0 0 @ listed lists0 (Some (ListRef 1)) @ listed lists0 (Some (ListRef 0))
     = [''bob@example.com'', ''carol@example.com'', ''dave@example.com'', ''bob@example.com'']"
  by (simp add: send_email_calls quiet_attach quiet_session quiet_library transport_def alice_def
      same_list_def listed_simps lists0_def as_list_def)

subsection \<open>The caller's list\<close>

text \<open>
  Claim C10, as amended. When \<open>to_emails\<close> is a list, the call leaves that list object
  holding the original primary recipients, then the recipients of \<open>cc\<close>, then those of
  \<open>bcc\<close>, provided \<open>bcc\<close> is not that same list object; if it is, the list as extended by
  \<open>cc\<close> is appended to itself. No other list changes, and a call with a string changes
  none.
\<close>

theorem to_emails_extended_in_place:
  "lists (send_email w h self (ListRef a) subject body html attachments cc bcc) a
     = h a @ listed h cc
         @ (if same_list (ListRef a) bcc then h a @ listed h cc else listed h bcc)
   \<and> (\<not> same_list (ListRef a) bcc
        \<longrightarrow> lists (send_email w h self (ListRef a) subject body html attachments cc bcc) a
            = h a @ listed h cc @ listed h bcc)
   \<and> (b \<noteq> a
        \<longrightarrow> lists (send_email w h self (ListRef a) subject body html attachments cc bcc) b = h b)
   \<and> lists (send_email w h self (Str s) subject body html attachments cc bcc) = h"
  by (simp add: send_email_lists as_list_def)

text \<open>The caller's list 0, with list 1 as \<open>cc\<close> and a string as \<open>bcc\<close>.\<close>

theorem to_emails_extended_in_place_witness:
  "lists (send_email quiet_world lists0 alice (ListRef 0) ''Hi'' ''Hello'' False None
            (Some (ListRef 1)) (Some (Str ''erin@example.com''))) 0
     = [''bob@example.com'', ''carol@example.com'', ''dave@example.com'', ''erin@example.com'']
   \<and> lists (send_email quiet_world lists0 alice (ListRef 0) ''Hi'' ''Hello'' False None
            (Some (ListRef 1)) (Some (Str ''erin@example.com''))) 1
     = [''carol@example.com'', ''dave@example.com'']
   \<and> lists (send_email quiet_world lists0 alice (Str ''bob@example.com'') ''Hi'' ''Hello'' False None
            (Some (ListRef 1)) (Some (Str ''erin@example.com''))) 1
     = [''carol@example.com'', ''dave@example.com'']"
  using to_emails_extended_in_place [of quiet_world lists0 alice 0 "''Hi''" "''Hello''" False None
      "Some (ListRef 1)" "Some (Str ''erin@example.com'')" 1 "''bob@example.com''"]
  by (simp add: same_list_def listed_simps lists0_def)

text \<open>
  Claim C10 as stated has the list end with the BCC entries provided. With list 1 passed
  both as \<open>to_emails\<close> and as \<open>bcc\<close>, and a \<open>cc\<close>, the list ends with the CC entry again.
\<close>

theorem to_emails_aliased_counterexample:
  "lists (send_email quiet_world lists0 alice (ListRef 1) ''Hi'' ''Hello'' False None
            (Some (Str ''erin@example.com'')) (Some (ListRef 1))) 1
     = [''carol@example.com'', ''dave@example.com'', ''erin@example.com'',
        ''carol@example.com'', ''dave@example.com'', ''erin@example.com'']
   \<and> lists0 1 @ listed lists0 (Some (Str ''erin@example.com'')) @ listed lists0 (Some (ListRef 1))
     = [''carol@example.com'', ''dave@example.com'', ''erin@example.com'',
        ''carol@example.com'', ''dave@example.com'']"
  by (simp add: send_email_lists same_list_def listed_simps lists0_def as_list_def)

section \<open>Templates\<close>

subsection \<open>Auxiliary facts\<close>

lemma startswith_Cons:
  "startswith (c # cs) (p # ps) = (c = p \<and> startswith cs ps)"
  by (simp add: startswith_def)

lemma startswith_Nil [simp]: "startswith s []"
  by (simp add: startswith_def)

lemma startswith_append: "startswith (p @ s) p"
  by (simp add: startswith_def)

lemma startswith_decompose: "startswith s p \<Longrightarrow> s = p @ drop (length p) s"
  by (metis append_take_drop_id startswith_def)

lemma replace_absent:
  "old \<noteq> [] \<Longrightarrow> \<not> contains s old \<Longrightarrow> replace s old new = s"
  by (induction s) auto

lemma substitute_snoc:
  "substitute template (vars @ [(k, v)]) = replace (substitute template vars) (placeholder k) v"
  by (simp add: substitute_def)

lemma substitute_Cons:
  "substitute template ((k, v) # vars) = substitute (replace template (placeholder k) v) vars"
  by (simp add: substitute_def)

lemma substitute_absent:
  "(\<forall>(k, v) \<in> set vars. \<not> contains template (placeholder k)) \<Longrightarrow> substitute template vars = template"
proof (induction vars)
  case Nil
  then show ?case by (simp add: substitute_def)
next
  case (Cons kv vars)
  obtain k v where kv: "kv = (k, v)" by (cases kv)
  have "replace template (placeholder k) v = template"
    using Cons.prems kv by (intro replace_absent) (auto simp: placeholder_def)
  with Cons kv show ?case by (simp add: substitute_Cons)
qed

text \<open>Text without an opening brace is copied when the pattern starts with one.\<close>

lemma replace_skip:
  "CHR ''{'' \<notin> set a \<Longrightarrow> replace (a @ t) (CHR ''{'' # p) new = a @ replace t (CHR ''{'' # p) new"
  by (induction a) (auto simp: startswith_Cons)

lemma contains_skip:
  "CHR ''{'' \<notin> set a \<Longrightarrow> contains (a @ t) (CHR ''{'' # p) = contains t (CHR ''{'' # p)"
  by (induction a) (auto simp: startswith_Cons)

lemma contains_appendI: "contains t p \<Longrightarrow> contains (a @ t) p"
  by (induction a) auto

lemma startswith_same_name:
  "brace_free k \<Longrightarrow> brace_free c \<Longrightarrow> startswith (k @ CHR ''}'' # rest) (c @ [CHR ''}'']) \<Longrightarrow> k = c"
proof (induction c arbitrary: k)
  case Nil
  then show ?case by (cases k) (auto simp: startswith_Cons brace_free_def)
next
  case (Cons x c)
  then show ?case
    by (cases k) (auto simp: startswith_Cons brace_free_def)
qed

lemma placeholder_Cons: "placeholder k = CHR ''{'' # k @ [CHR ''}'']"
  by (simp add: placeholder_def)

text \<open>
  Replacing \<open>{k}\<close> leaves an occurrence of another placeholder \<open>{c}\<close> in place, the two
  names being free of braces: no occurrence of \<open>{k}\<close> can overlap it.
\<close>

lemma replace_keeps_other_aux:
  assumes "brace_free k" "brace_free c" "k \<noteq> c"
  shows "old = placeholder k \<Longrightarrow> contains s (placeholder c)
    \<Longrightarrow> contains (replace s old v) (placeholder c)"
proof (induction s old v rule: replace.induct)
  case (1 old new)
  then show ?case by (simp add: placeholder_Cons)
next
  case (2 x xs old new)
  have old: "old = placeholder k" "old \<noteq> []"
    using "2.prems"(1) by (simp_all add: placeholder_Cons)
  show ?case
  proof (cases "startswith (x # xs) old")
    case True
    define rest where "rest = drop (length old) (x # xs)"
    have s: "x # xs = placeholder k @ rest"
      using startswith_decompose [OF True] old(1) rest_def by simp
    have "\<not> startswith (x # xs) (placeholder c)"
    proof
      assume "startswith (x # xs) (placeholder c)"
      then have "startswith (k @ CHR ''}'' # rest) (c @ [CHR ''}''])"
        unfolding s by (simp add: placeholder_Cons startswith_Cons)
      from startswith_same_name [OF assms(1,2) this] assms(3) show False by simp
    qed
    moreover have "contains xs (placeholder c) = contains rest (placeholder c)"
    proof -
      have "xs = (k @ [CHR ''}'']) @ rest" using s by (simp add: placeholder_Cons)
      moreover have "CHR ''{'' \<notin> set (k @ [CHR ''}''])"
        using assms(1) by (simp add: brace_free_def)
      ultimately show ?thesis
        using contains_skip [of "k @ [CHR ''}'']" rest "c @ [CHR ''}'']"]
        by (simp add: placeholder_Cons)
    qed
    ultimately have "contains rest (placeholder c)" using "2.prems"(2) by simp
    then have "contains (replace rest old new) (placeholder c)"
      unfolding rest_def by (rule "2.IH"(2) [OF old(2) True old(1)])
    then have "contains (new @ replace rest old new) (placeholder c)"
      by (rule contains_appendI)
    then show ?thesis
      using True old(2) rest_def by simp
  next
    case False
    show ?thesis
    proof (cases "startswith (x # xs) (placeholder c)")
      case True
      then obtain rest where s: "x # xs = placeholder c @ rest"
        using startswith_decompose by blast
      then have xs: "xs = (c @ [CHR ''}'']) @ rest" and x: "x = CHR ''{''"
        by (simp_all add: placeholder_Cons)
      have "CHR ''{'' \<notin> set (c @ [CHR ''}''])" using assms(2) by (simp add: brace_free_def)
      then have "replace xs old new = (c @ [CHR ''}'']) @ replace rest old new"
        unfolding xs old(1) placeholder_Cons by (rule replace_skip)
      then have "startswith (x # replace xs old new) (placeholder c)"
        by (simp add: x placeholder_Cons startswith_def)
      then show ?thesis using False old(2) by simp
    next
      case other: False
      then have "contains xs (placeholder c)" using "2.prems"(2) by simp
      then have "contains (replace xs old new) (placeholder c)"
        by (rule "2.IH"(3) [OF old(2) False old(1)])
      then show ?thesis using False old(2) by simp
    qed
  qed
qed

lemma replace_keeps_other:
  "brace_free k \<Longrightarrow> brace_free c \<Longrightarrow> k \<noteq> c \<Longrightarrow> contains s (placeholder c)
    \<Longrightarrow> contains (replace s (placeholder k) v) (placeholder c)"
  by (rule replace_keeps_other_aux) simp_all

lemma substitute_keeps_other:
  assumes "brace_free c"
  shows "(\<forall>(k, v) \<in> set vars. brace_free k \<and> k \<noteq> c) \<Longrightarrow> contains template (placeholder c)
    \<Longrightarrow> contains (substitute template vars) (placeholder c)"
proof (induction vars arbitrary: template)
  case Nil
  then show ?case by (simp add: substitute_def)
next
  case (Cons kv vars)
  obtain k v where kv: "kv = (k, v)" by (cases kv)
  have "contains (replace template (placeholder k) v) (placeholder c)"
    using Cons.prems kv assms by (intro replace_keeps_other) auto
  with Cons kv show ?case by (simp add: substitute_Cons)
qed

lemma replace_first:
  "CHR ''{'' \<notin> set pre \<Longrightarrow>
   replace (pre @ placeholder k @ post) (placeholder k) v = pre @ v @ replace post (placeholder k) v"
  by (simp add: placeholder_Cons replace_skip startswith_def)

subsection \<open>Substitution in \<open>send_template_email\<close>\<close>

text \<open>
  Claim C7, as amended. \<open>send_template_email\<close> delegates to \<open>send_email\<close> with the body
  obtained from the template by one \<open>replace\<close> per variable, in the order of the mapping,
  each applied to the body the previous ones produced. A \<open>replace\<close> puts the value in
  the place of each occurrence of \<open>{key}\<close> from the left. A variable whose placeholder
  does not occur in the body when its turn comes leaves the body as it is; when no
  placeholder of a variable occurs in the template, the body is the template. A
  placeholder \<open>{c}\<close> of the template whose name is not a key, all names being free of
  braces, still occurs in the body.
\<close>

theorem template_substitution:
  "send_template_email w h self to_arg subject template template_vars html attachments cc bcc
     = send_email w h self to_arg subject (substitute template template_vars) html attachments
         cc bcc
   \<and> substitute template [] = template
   \<and> substitute template (template_vars @ [(k, v)])
       = replace (substitute template template_vars) (placeholder k) v
   \<and> (CHR ''{'' \<notin> set pre
        \<longrightarrow> replace (pre @ placeholder k @ post) (placeholder k) v
            = pre @ v @ replace post (placeholder k) v)
   \<and> (\<not> contains body (placeholder k) \<longrightarrow> replace body (placeholder k) v = body)
   \<and> ((\<forall>(k, v) \<in> set template_vars. \<not> contains template (placeholder k))
        \<longrightarrow> substitute template template_vars = template)
   \<and> (brace_free c \<and> (\<forall>(k, v) \<in> set template_vars. brace_free k \<and> k \<noteq> c)
          \<and> contains template (placeholder c)
        \<longrightarrow> contains (substitute template template_vars) (placeholder c))"
proof -
  have "placeholder k \<noteq> []" by (simp add: placeholder_Cons)
  then have absent: "\<not> contains body (placeholder k) \<longrightarrow> replace body (placeholder k) v = body"
    by (simp add: replace_absent)
  show ?thesis
    using absent substitute_absent [of template_vars template]
      substitute_keeps_other [of c template_vars template]
    by (simp add: send_template_email_def substitute_snoc replace_first)
       (simp add: substitute_def)
qed

text \<open>The template \<open>Hi {name}\<close> with \<open>name\<close>, with a variable that is not used, and with a
  placeholder that has no variable.\<close>

theorem template_substitution_witness:
  "substitute ''Hi {name}'' [(''name'', ''Bo'')] = ''Hi Bo''
   \<and> substitute ''Hi {name}'' [(''name'', ''Bo''), (''unused'', ''x'')] = ''Hi Bo''
   \<and> substitute ''Hi {other}'' [(''name'', ''Bo'')] = ''Hi {other}''
   \<and> contains (substitute ''Hi {name}, {other}'' [(''name'', ''Bo'')]) (placeholder ''other'')"
proof -
  have e1: "substitute ''Hi {name}'' [(''name'', ''Bo'')] = ''Hi Bo''" by code_simp
  have n1: "\<not> contains ''Hi Bo'' (placeholder ''unused'')" by code_simp
  have n2: "\<not> contains ''Hi {other}'' (placeholder ''name'')" by code_simp
  have c2: "contains ''Hi {name}, {other}'' (placeholder ''other'')" by code_simp
  have b: "brace_free ''other''" "brace_free ''name''" by code_simp+
  note a = template_substitution [of quiet_world lists0 alice "Str ''bob@example.com''" "''Hi''"
      "''Hi {name}''" "[(''name'', ''Bo'')]" True None None None "''unused''" "''x''" "[]" "[]"
      "''Hi Bo''" "''other''"]
  note o = template_substitution [of quiet_world lists0 alice "Str ''bob@example.com''" "''Hi''"
      "''Hi {other}''" "[(''name'', ''Bo'')]" True None None None "''unused''" "''x''" "[]" "[]"
      "''Hi Bo''" "''other''"]
  note p = template_substitution [of quiet_world lists0 alice "Str ''bob@example.com''" "''Hi''"
      "''Hi {name}, {other}''" "[(''name'', ''Bo'')]" True None None None "''unused''" "''x''" "[]"
      "[]" "''Hi Bo''" "''other''"]
  note snoc = a [THEN conjunct2, THEN conjunct2, THEN conjunct1]
  note absent = a [THEN conjunct2, THEN conjunct2, THEN conjunct2, THEN conjunct2, THEN conjunct1,
      THEN mp, OF n1]
  have w2: "substitute ''Hi {name}'' [(''name'', ''Bo''), (''unused'', ''x'')] = ''Hi Bo''"
    using snoc absent by (simp only: e1 append.simps)
  have q: "\<forall>(k, v) \<in> set [(''name'', ''Bo'')]. \<not> contains ''Hi {other}'' (placeholder k)"
    using n2 by simp
  note w3 = o [THEN conjunct2, THEN conjunct2, THEN conjunct2, THEN conjunct2, THEN conjunct2,
      THEN conjunct1, THEN mp, OF q]
  have r: "brace_free ''other'' \<and> (\<forall>(k, v) \<in> set [(''name'', ''Bo'')]. brace_free k \<and> k \<noteq> ''other'')
      \<and> contains ''Hi {name}, {other}'' (placeholder ''other'')"
    using b c2 by simp
  note w4 = p [THEN conjunct2, THEN conjunct2, THEN conjunct2, THEN conjunct2, THEN conjunct2,
      THEN conjunct2, THEN mp, OF r]
  from e1 w2 w3 w4 show ?thesis by (intro conjI)
qed

text \<open>
  Claim C7 as stated says that a variable with no matching placeholder in the template
  is ignored. The value of an earlier variable can bring the placeholder in: with the
  template \<open>{a}\<close>, the variable \<open>b\<close> has no placeholder, yet adding it changes the body
  from \<open>{b}\<close> to \<open>x\<close>.
\<close>

theorem template_substitution_counterexample:
  "\<not> contains ''{a}'' (placeholder ''b'')
   \<and> substitute ''{a}'' [(''a'', ''{b}''), (''b'', ''x'')] = ''x''
   \<and> substitute ''{a}'' [(''a'', ''{b}'')] = ''{b}''"
  by code_simp


end
